theory Spec2Isabelle
  imports Main "HOL-Library.Sublist" "HOL-Library.AList"
begin

section \<open>Path rewriting in the entry file\<close>

text \<open>
  Both exporters (the Samsung Tizen one and the LG webOS one,
  \<^verbatim>\<open>scripts/export-webos.js\<close>) rewrite \<^verbatim>\<open>index.html\<close> with the same four
  global regular-expression replacements:
  \<^verbatim>\<open>
  indexContent = indexContent.replace(/src="\/_expo\//g, 'src="_expo/');
  indexContent = indexContent.replace(/href="\/_expo\//g, 'href="_expo/');
  indexContent = indexContent.replace(/src="\/([^"]+)"/g, 'src="$1"');
  indexContent = indexContent.replace(/href="\/([^"]+)"/g, 'href="$1"');
  \<close>
  The text \<^verbatim>\<open>indexContent\<close> is held as its UTF-8 encoding, a \<^typ>\<open>string\<close>
  (see the section on reading a file below). The patterns are ASCII and every byte of
  the encoding of another character is above 0x7F, so no pattern character matches
  inside such a character, and \<^verbatim>\<open>[^"]\<close> accepts all its bytes as it accepts all
  its UTF-16 code units: the scan over the bytes and JavaScript's scan over the code
  units rewrite the same places.

  A global replace scans from left to right: where the pattern matches, the replacement
  is emitted and the scan resumes after the match; elsewhere one character is copied.
\<close>

definition dquote :: char where
  \<open>dquote = CHR 0x22\<close>

text \<open>\<open>strip_prefix p s\<close> is what follows the literal \<open>p\<close> at the head of \<open>s\<close>, if it is there.\<close>

fun strip_prefix :: \<open>string \<Rightarrow> string \<Rightarrow> string option\<close> where
  \<open>strip_prefix [] s = Some s\<close>
| \<open>strip_prefix (p # ps) [] = None\<close>
| \<open>strip_prefix (p # ps) (c # cs) = (if p = c then strip_prefix ps cs else None)\<close>

lemma strip_prefix_Some_iff: \<open>strip_prefix p s = Some r \<longleftrightarrow> s = p @ r\<close>
  by (induction p s rule: strip_prefix.induct) auto

lemma strip_prefix_length:
  \<open>strip_prefix p s = Some r \<Longrightarrow> length r + length p = length s\<close>
  by (simp add: strip_prefix_Some_iff)

text \<open>
  \<open>replace_literal pat rep\<close> is \<^verbatim>\<open>s.replace(/pat/g, rep)\<close> for a pattern without
  metacharacters. (An empty pattern does not occur in the source; the model copies the
  input then.)
\<close>

function replace_literal :: \<open>string \<Rightarrow> string \<Rightarrow> string \<Rightarrow> string\<close> where
  \<open>replace_literal pat rep [] = []\<close>
| \<open>replace_literal pat rep (c # cs) =
     (if pat = [] then c # cs
      else (case strip_prefix pat (c # cs) of
              Some rest \<Rightarrow> rep @ replace_literal pat rep rest
            | None \<Rightarrow> c # replace_literal pat rep cs))\<close>
  by pat_completeness auto
termination
proof (relation \<open>measure (\<lambda>(pat, rep, s). length s)\<close>)
  show \<open>wf (measure (\<lambda>(pat, rep, s). length s))\<close> by simp
next
  fix pat rep :: string and c :: char and cs rest :: string
  assume \<open>pat \<noteq> []\<close> and \<open>strip_prefix pat (c # cs) = Some rest\<close>
  then have \<open>length rest < length (c # cs)\<close>
    using strip_prefix_length [of pat \<open>c # cs\<close> rest] by (cases pat) auto
  then show \<open>((pat, rep, rest), (pat, rep, c # cs)) \<in> measure (\<lambda>(pat, rep, s). length s)\<close>
    by simp
next
  fix pat rep :: string and c :: char and cs :: string
  show \<open>((pat, rep, cs), (pat, rep, c # cs)) \<in> measure (\<lambda>(pat, rep, s). length s)\<close>
    by simp
qed

text \<open>
  \<open>match_attr a s\<close> matches \<^verbatim>\<open>a="\/([^"]+)"\<close> at the head of \<open>s\<close> and returns the
  group \<^verbatim>\<open>$1\<close> and what follows the match. The group is greedy: it takes the whole
  run of characters up to the next double quote, must not be empty, and the quote must
  be there (giving back characters of the run cannot help: none of them is a quote).
\<close>

definition match_attr :: \<open>string \<Rightarrow> string \<Rightarrow> (string \<times> string) option\<close> where
  \<open>match_attr a s =
     (case strip_prefix (a @ ''="/'') s of
        None \<Rightarrow> None
      | Some r \<Rightarrow>
          (let x = takeWhile (\<lambda>c. c \<noteq> dquote) r;
               r' = dropWhile (\<lambda>c. c \<noteq> dquote) r
           in if x \<noteq> [] \<and> r' \<noteq> [] then Some (x, tl r') else None))\<close>

lemma match_attr_length:
  \<open>match_attr a s = Some (x, rest) \<Longrightarrow> length rest < length s\<close>
proof -
  assume m: \<open>match_attr a s = Some (x, rest)\<close>
  then obtain r where r: \<open>strip_prefix (a @ ''="/'') s = Some r\<close>
    and rest: \<open>rest = tl (dropWhile (\<lambda>c. c \<noteq> dquote) r)\<close>
    by (auto simp: match_attr_def Let_def split: option.splits if_splits)
  have \<open>length rest \<le> length r\<close>
    unfolding rest using length_dropWhile_le [of \<open>\<lambda>c. c \<noteq> dquote\<close> r] by simp
  moreover have \<open>length r < length s\<close>
    using strip_prefix_length [OF r] by simp
  ultimately show ?thesis by simp
qed

text \<open>\<open>replace_attr a\<close> is \<^verbatim>\<open>s.replace(/a="\/([^"]+)"/g, 'a="$1"')\<close>.\<close>

function replace_attr :: \<open>string \<Rightarrow> string \<Rightarrow> string\<close> where
  \<open>replace_attr a [] = []\<close>
| \<open>replace_attr a (c # cs) =
     (case match_attr a (c # cs) of
        Some (x, rest) \<Rightarrow> a @ ''="'' @ x @ ''"'' @ replace_attr a rest
      | None \<Rightarrow> c # replace_attr a cs)\<close>
  by pat_completeness auto
termination
proof (relation \<open>measure (\<lambda>(a, s). length s)\<close>)
  show \<open>wf (measure (\<lambda>(a, s). length s))\<close> by simp
next
  fix a :: string and c :: char and cs x rest :: string and x2
  assume \<open>match_attr a (c # cs) = Some x2\<close> and \<open>(x, rest) = x2\<close>
  then have \<open>length rest < length (c # cs)\<close>
    using match_attr_length [of a \<open>c # cs\<close> x rest] by simp
  then show \<open>((a, rest), (a, c # cs)) \<in> measure (\<lambda>(a, s). length s)\<close> by simp
next
  fix a :: string and c :: char and cs :: string
  show \<open>((a, cs), (a, c # cs)) \<in> measure (\<lambda>(a, s). length s)\<close> by simp
qed

text \<open>The two prefix passes, the two generic passes, and the four in the source's order.\<close>

definition rewrite_expo :: \<open>string \<Rightarrow> string\<close> where
  \<open>rewrite_expo s =
     replace_literal ''href="/_expo/'' ''href="_expo/''
       (replace_literal ''src="/_expo/'' ''src="_expo/'' s)\<close>

definition rewrite_generic :: \<open>string \<Rightarrow> string\<close> where
  \<open>rewrite_generic s = replace_attr ''href'' (replace_attr ''src'' s)\<close>

definition rewrite_paths :: \<open>string \<Rightarrow> string\<close> where
  \<open>rewrite_paths s = rewrite_generic (rewrite_expo s)\<close>


section \<open>JavaScript values\<close>

text \<open>
  What \<^verbatim>\<open>JSON.parse\<close> returns, and \<^verbatim>\<open>undefined\<close> for a property that is not
  there. A number is represented by the text \<^verbatim>\<open>String\<close> gives it (\<^verbatim>\<open>0\<close> and
  \<^verbatim>\<open>-0\<close> both give \<open>''0''\<close>), an object by its own properties in enumeration order.
\<close>

datatype jsval =
    JUndefined
  | JNull
  | JBool bool
  | JNum string
  | JStr string
  | JArr \<open>jsval list\<close>
  | JObj \<open>(string \<times> jsval) list\<close>

text \<open>\<^verbatim>\<open>ToBoolean\<close>: what \<^verbatim>\<open>||\<close> tests.\<close>

fun truthy :: \<open>jsval \<Rightarrow> bool\<close> where
  \<open>truthy JUndefined = False\<close>
| \<open>truthy JNull = False\<close>
| \<open>truthy (JBool b) = b\<close>
| \<open>truthy (JNum t) = (t \<noteq> ''0'' \<and> t \<noteq> ''NaN'')\<close>
| \<open>truthy (JStr s) = (s \<noteq> [])\<close>
| \<open>truthy (JArr xs) = True\<close>
| \<open>truthy (JObj fs) = True\<close>

definition js_or :: \<open>jsval \<Rightarrow> jsval \<Rightarrow> jsval\<close> where
  \<open>js_or a b = (if truthy a then a else b)\<close>

text \<open>
  \<^verbatim>\<open>packageJson.version\<close>: reading a property of \<^verbatim>\<open>null\<close> throws a TypeError
  (\<open>None\<close>); an object gives its property or \<^verbatim>\<open>undefined\<close>; a string, number,
  boolean or array has no property of that name.
\<close>

fun get_version :: \<open>jsval \<Rightarrow> jsval option\<close> where
  \<open>get_version JUndefined = None\<close>
| \<open>get_version JNull = None\<close>
| \<open>get_version (JObj fs) =
     Some (case map_of fs ''version'' of Some v \<Rightarrow> v | None \<Rightarrow> JUndefined)\<close>
| \<open>get_version v = Some JUndefined\<close>

fun intercalate :: \<open>string \<Rightarrow> string list \<Rightarrow> string\<close> where
  \<open>intercalate sep [] = []\<close>
| \<open>intercalate sep [x] = x\<close>
| \<open>intercalate sep (x # y # ys) = x @ sep @ intercalate sep (y # ys)\<close>

text \<open>
  \<^verbatim>\<open>ToString\<close>, which a template literal applies to each \<^verbatim>\<open>${...}\<close>. An array
  is joined with commas, \<^verbatim>\<open>null\<close> and \<^verbatim>\<open>undefined\<close> elements giving the empty
  text. An object gives \<^verbatim>\<open>[object Object]\<close>, unless it has a property
  \<^verbatim>\<open>toString\<close> of its own: a parsed value is never a function, so the conversion
  finds no method that returns a primitive and throws a TypeError (\<open>None\<close>).
\<close>

fun to_string :: \<open>jsval \<Rightarrow> string option\<close> where
  \<open>to_string JUndefined = Some ''undefined''\<close>
| \<open>to_string JNull = Some ''null''\<close>
| \<open>to_string (JBool b) = Some (if b then ''true'' else ''false'')\<close>
| \<open>to_string (JNum t) = Some t\<close>
| \<open>to_string (JStr s) = Some s\<close>
| \<open>to_string (JArr xs) =
     map_option (intercalate '','')
       (those (map (\<lambda>x. if x = JUndefined \<or> x = JNull then Some [] else to_string x) xs))\<close>
| \<open>to_string (JObj fs) =
     (if map_of fs ''toString'' = None then Some ''[object Object]'' else None)\<close>

definition type_error_message :: string where
  \<open>type_error_message = ''Cannot convert object to primitive value''\<close>

definition hex_digit :: \<open>nat \<Rightarrow> char\<close> where
  \<open>hex_digit n = ''0123456789abcdef'' ! (n mod 16)\<close>

definition backslash :: char where
  \<open>backslash = CHR 0x5C\<close>

text \<open>\<^verbatim>\<open>JSON.stringify\<close> of a string: the quoted text with its escapes.\<close>

definition json_escape :: \<open>char \<Rightarrow> string\<close> where
  \<open>json_escape c =
     (if c = dquote then [backslash, dquote]
      else if c = backslash then [backslash, backslash]
      else if c = CHR 0x08 then [backslash, CHR ''b'']
      else if c = CHR 0x0C then [backslash, CHR ''f'']
      else if c = CHR 0x0A then [backslash, CHR ''n'']
      else if c = CHR 0x0D then [backslash, CHR ''r'']
      else if c = CHR 0x09 then [backslash, CHR ''t'']
      else if (of_char c :: nat) < 32 then
        [backslash, CHR ''u'', CHR ''0'', CHR ''0'',
         hex_digit (of_char c div 16), hex_digit (of_char c)]
      else [c])\<close>

definition json_quote :: \<open>string \<Rightarrow> string\<close> where
  \<open>json_quote s = dquote # concat (map json_escape s) @ [dquote]\<close>

text \<open>
  \<^verbatim>\<open>JSON.stringify(value, null, 2)\<close>; \<open>ind\<close> is the indentation reached so far. A
  property whose value is \<^verbatim>\<open>undefined\<close> is left out, an \<^verbatim>\<open>undefined\<close> array
  element is written \<^verbatim>\<open>null\<close>, and so is a number that is not finite.
\<close>

fun json_stringify :: \<open>string \<Rightarrow> jsval \<Rightarrow> string\<close> where
  \<open>json_stringify ind JUndefined = ''null''\<close>
| \<open>json_stringify ind JNull = ''null''\<close>
| \<open>json_stringify ind (JBool b) = (if b then ''true'' else ''false'')\<close>
| \<open>json_stringify ind (JNum t) =
     (if t = ''Infinity'' \<or> t = ''-Infinity'' \<or> t = ''NaN'' then ''null'' else t)\<close>
| \<open>json_stringify ind (JStr s) = json_quote s\<close>
| \<open>json_stringify ind (JArr xs) =
     (if xs = [] then ''[]''
      else ''['' @ [CHR 0x0A] @ ind @ ''  ''
           @ intercalate ('','' @ [CHR 0x0A] @ ind @ ''  '')
               (map (json_stringify (ind @ ''  '')) xs)
           @ [CHR 0x0A] @ ind @ '']'')\<close>
| \<open>json_stringify ind (JObj fs) =
     (let ps = filter (\<lambda>(k, v). v \<noteq> JUndefined) fs in
      if ps = [] then ''{}''
      else ''{'' @ [CHR 0x0A] @ ind @ ''  ''
           @ intercalate ('','' @ [CHR 0x0A] @ ind @ ''  '')
               (map (\<lambda>(k, v). json_quote k @ '': '' @ json_stringify (ind @ ''  '') v) ps)
           @ [CHR 0x0A] @ ind @ ''}'')\<close>


section \<open>The file system\<close>

text \<open>
  A file holds bytes; a directory lists its entries by name, in the order
  \<^verbatim>\<open>readdirSync\<close> returns them. Symbolic links and special files are not modelled.
\<close>

datatype node = File string | Dir \<open>(string \<times> node) list\<close>

text \<open>In a directory of a real file system no name occurs twice.\<close>

fun wf_node :: \<open>node \<Rightarrow> bool\<close> where
  \<open>wf_node (File c) = True\<close>
| \<open>wf_node (Dir es) = (distinct (map fst es) \<and> list_all (\<lambda>e. wf_node (snd e)) es)\<close>

text \<open>
  The errors the \<^verbatim>\<open>fs\<close> calls of the scripts raise on files and directories.
  Failures of the machine (permissions, a full disk) are not modelled.
\<close>

datatype fs_error = EEXIST | ENOTDIR | EISDIR | ENOENT

text \<open>
  The head of \<^verbatim>\<open>error.message\<close>; Node appends the system call and the path.
\<close>

fun error_message :: \<open>fs_error \<Rightarrow> string\<close> where
  \<open>error_message EEXIST = ''EEXIST: file already exists''\<close>
| \<open>error_message ENOTDIR = ''ENOTDIR: not a directory''\<close>
| \<open>error_message EISDIR = ''EISDIR: illegal operation on a directory''\<close>
| \<open>error_message ENOENT = ''ENOENT: no such file or directory''\<close>

text \<open>
  A file-system operation returns the new state, or throws and leaves the state it had
  reached.
\<close>

datatype 'a result = Ok 'a | Fail fs_error 'a

text \<open>
  \<^verbatim>\<open>
  function copyDirectory(src, dest) {
    fs.mkdirSync(dest, { recursive: true });
    const entries = fs.readdirSync(src, { withFileTypes: true });
    for (const entry of entries) {
      const srcPath = path.join(src, entry.name);
      const destPath = path.join(dest, entry.name);
      if (entry.isDirectory()) {
        copyDirectory(srcPath, destPath);
      } else {
        fs.copyFileSync(srcPath, destPath);
      }
    }
  }
  \<close>
  \<open>copyDirectory src dest\<close> takes the source node and what is at the destination path
  (\<open>None\<close>: nothing), and returns what is at the destination afterwards.
  \<^verbatim>\<open>mkdirSync\<close> with \<^verbatim>\<open>recursive\<close> accepts an existing directory and throws on a
  file; \<^verbatim>\<open>readdirSync\<close> throws on a file; \<^verbatim>\<open>copyFileSync\<close> replaces a file and
  throws on a directory. \<open>copyEntries\<close> is the loop.
\<close>

fun copyDirectory :: \<open>node \<Rightarrow> node option \<Rightarrow> node result\<close>
  and copyEntries :: \<open>(string \<times> node) list \<Rightarrow> (string \<times> node) list \<Rightarrow> (string \<times> node) list result\<close>
where
  \<open>copyDirectory src (Some (File c)) = Fail EEXIST (File c)\<close>
| \<open>copyDirectory (File c) None = Fail ENOTDIR (Dir [])\<close>
| \<open>copyDirectory (File c) (Some (Dir d)) = Fail ENOTDIR (Dir d)\<close>
| \<open>copyDirectory (Dir es) None =
     (case copyEntries es [] of Ok d' \<Rightarrow> Ok (Dir d') | Fail e d' \<Rightarrow> Fail e (Dir d'))\<close>
| \<open>copyDirectory (Dir es) (Some (Dir d)) =
     (case copyEntries es d of Ok d' \<Rightarrow> Ok (Dir d') | Fail e d' \<Rightarrow> Fail e (Dir d'))\<close>
| \<open>copyEntries [] d = Ok d\<close>
| \<open>copyEntries ((name, Dir sub) # es) d =
     (case copyDirectory (Dir sub) (map_of d name) of
        Ok n \<Rightarrow> copyEntries es (AList.update name n d)
      | Fail e n \<Rightarrow> Fail e (AList.update name n d))\<close>
| \<open>copyEntries ((name, File c) # es) d =
     (case map_of d name of
        Some (Dir x) \<Rightarrow> Fail EISDIR d
      | _ \<Rightarrow> copyEntries es (AList.update name (File c) d))\<close>

text \<open>
  \<^verbatim>\<open>fs.writeFileSync(path.join(dir, name), content)\<close> and the writing half of
  \<^verbatim>\<open>fs.copyFileSync\<close>, on what is at \<open>dir\<close>.
\<close>

fun write_file :: \<open>string \<Rightarrow> string \<Rightarrow> node option \<Rightarrow> node option result\<close> where
  \<open>write_file name content None = Fail ENOENT None\<close>
| \<open>write_file name content (Some (File c)) = Fail ENOTDIR (Some (File c))\<close>
| \<open>write_file name content (Some (Dir d)) =
     (case map_of d name of
        Some (Dir x) \<Rightarrow> Fail EISDIR (Some (Dir d))
      | _ \<Rightarrow> Ok (Some (Dir (AList.update name (File content) d))))\<close>

text \<open>What is at \<^verbatim>\<open>path.join(dir, name)\<close>.\<close>

fun entry :: \<open>node option \<Rightarrow> string \<Rightarrow> node option\<close> where
  \<open>entry (Some (Dir d)) name = map_of d name\<close>
| \<open>entry other name = None\<close>

section \<open>The world of one run\<close>

text \<open>
  The paths the scripts name are fixed and distinct siblings under the application
  directory (the parent of \<^verbatim>\<open>__dirname\<close>), so the world holds one field for each:
  \<^item> \<open>package_json\<close>: what \<^verbatim>\<open>JSON.parse(fs.readFileSync(PACKAGE_JSON_PATH, 'utf8'))\<close>
    gives: the read throws, the parse throws, or a value;
  \<^item> \<open>dist\<close>: what is at \<^verbatim>\<open>DIST_DIR\<close>;
  \<^item> \<open>staging\<close>: what is at the exporter's own staging directory
    (\<^verbatim>\<open>TIZEN_DIR\<close>, \<^verbatim>\<open>tizen-build\<close>, or \<^verbatim>\<open>WEBOS_DIR\<close>, \<^verbatim>\<open>webos-build\<close>);
  \<^item> \<open>images\<close>: the bytes of the file \<^verbatim>\<open>assets/images/<name>\<close>, if it is there
    (the assets are files: a directory of that name is not modelled);
  \<^item> \<open>console\<close>: the calls of \<^verbatim>\<open>console.log\<close>, \<^verbatim>\<open>console.warn\<close> and
    \<^verbatim>\<open>console.error\<close> so far, one entry for each call;
  \<^item> \<open>app_dir\<close>: the application directory's absolute path, with its final slash;
  \<^item> \<open>cwd_relative\<close>: \<^verbatim>\<open>path.relative(process.cwd(), p)\<close>.
\<close>

datatype package_file = Unreadable string | Malformed string | Parsed jsval

datatype stream = Log | Warn | Error

record world =
  package_json :: package_file
  dist :: \<open>node option\<close>
  staging :: \<open>node option\<close>
  images :: \<open>string \<Rightarrow> string option\<close>
  console :: \<open>(stream \<times> string) list\<close>
  app_dir :: string
  cwd_relative :: \<open>string \<Rightarrow> string\<close>

definition say :: \<open>stream \<Rightarrow> string \<Rightarrow> world \<Rightarrow> world\<close> where
  \<open>say st msg w = w\<lparr>console := console w @ [(st, msg)]\<rparr>\<close>

definition says :: \<open>stream \<Rightarrow> string list \<Rightarrow> world \<Rightarrow> world\<close> where
  \<open>says st msgs w = w\<lparr>console := console w @ map (Pair st) msgs\<rparr>\<close>

text \<open>
  A step goes on to the next one, ends the process (\<^verbatim>\<open>process.exit(code)\<close>), or
  throws an error with a message; each with the world it leaves.
\<close>

datatype outcome = Next world | Exit nat world | Thrown string world

definition and_then :: \<open>outcome \<Rightarrow> (world \<Rightarrow> outcome) \<Rightarrow> outcome\<close> where
  \<open>and_then r f = (case r of Next w \<Rightarrow> f w | Exit n w \<Rightarrow> Exit n w | Thrown e w \<Rightarrow> Thrown e w)\<close>

text \<open>
  \<^verbatim>\<open>execSync(command, options)\<close> runs a program that is not part of the repository:
  it is a parameter \<open>exec\<close> of the run, giving whether the command exited with status 0
  (otherwise \<^verbatim>\<open>execSync\<close> throws) and the world the command leaves.
\<close>

type_synonym exec_sync = \<open>string \<Rightarrow> world \<Rightarrow> bool \<times> world\<close>

text \<open>The UTF-8 bytes of the three symbols the messages use (check mark, warning sign, package).\<close>

definition check_mark :: string where
  \<open>check_mark = [CHR 0xE2, CHR 0x9C, CHR 0x93]\<close>

definition warning_sign :: string where
  \<open>warning_sign = [CHR 0xE2, CHR 0x9A, CHR 0xA0]\<close>

definition package_sign :: string where
  \<open>package_sign = [CHR 0xF0, CHR 0x9F, CHR 0x93, CHR 0xA6]\<close>

definition newline :: string where
  \<open>newline = [CHR 0x0A]\<close>

section \<open>Reading a file as UTF-8\<close>

text \<open>
  \<^verbatim>\<open>fs.readFileSync(path, 'utf8')\<close> decodes the bytes of the file, and
  \<^verbatim>\<open>fs.writeFileSync(path, text)\<close> encodes the text as UTF-8 again. The decoder never
  fails: it replaces every ill-formed sequence by the character U+FFFD, one for each
  maximal part of the sequence that could still have started a character, as the UTF-8
  decoder of the Encoding Standard does (a byte order mark is kept). The decoded text
  holds no lone surrogate, so encoding it loses nothing.

  A decoded text is held here as its UTF-8 encoding, which is also what
  \<^verbatim>\<open>writeFileSync\<close> writes for it: \<open>utf8_decode bytes\<close> copies the well-formed
  sequences of \<open>bytes\<close> and puts the three bytes of U+FFFD for each error. The state
  of the decoder is \<open>None\<close> between characters, and otherwise the bytes seen of the
  current character, the number of bytes still needed, and the bounds of the next byte.
  A byte that does not continue the current character ends it with an error and is
  read again as the start of the next one.
\<close>

definition replacement_character :: string where
  \<open>replacement_character = [CHR 0xEF, CHR 0xBF, CHR 0xBD]\<close>

datatype utf8_first = Ascii | Lead nat nat nat | Invalid

definition utf8_first :: \<open>char \<Rightarrow> utf8_first\<close> where
  \<open>utf8_first b =
     (let n = (of_char b :: nat) in
      if n \<le> 0x7F then Ascii
      else if 0xC2 \<le> n \<and> n \<le> 0xDF then Lead 1 0x80 0xBF
      else if 0xE0 \<le> n \<and> n \<le> 0xEF then
        Lead 2 (if n = 0xE0 then 0xA0 else 0x80) (if n = 0xED then 0x9F else 0xBF)
      else if 0xF0 \<le> n \<and> n \<le> 0xF4 then
        Lead 3 (if n = 0xF0 then 0x90 else 0x80) (if n = 0xF4 then 0x8F else 0xBF)
      else Invalid)\<close>

function utf8_decode_from :: \<open>(string \<times> nat \<times> nat \<times> nat) option \<Rightarrow> string \<Rightarrow> string\<close> where
  \<open>utf8_decode_from None [] = []\<close>
| \<open>utf8_decode_from (Some st) [] = replacement_character\<close>
| \<open>utf8_decode_from None (b # bs) =
     (case utf8_first b of
        Ascii \<Rightarrow> b # utf8_decode_from None bs
      | Lead needed lower upper \<Rightarrow> utf8_decode_from (Some ([b], needed, lower, upper)) bs
      | Invalid \<Rightarrow> replacement_character @ utf8_decode_from None bs)\<close>
| \<open>utf8_decode_from (Some (seen, needed, lower, upper)) (b # bs) =
     (if lower \<le> of_char b \<and> (of_char b :: nat) \<le> upper then
        (if needed \<le> 1 then seen @ [b] @ utf8_decode_from None bs
         else utf8_decode_from (Some (seen @ [b], needed - 1, 0x80, 0xBF)) bs)
      else replacement_character @ utf8_decode_from None (b # bs))\<close>
  by pat_completeness auto
termination
  by (relation \<open>measure (\<lambda>(st, bs). 2 * length bs + (case st of None \<Rightarrow> 0 | Some x \<Rightarrow> 1))\<close>) auto

definition utf8_decode :: \<open>string \<Rightarrow> string\<close> where
  \<open>utf8_decode bytes = utf8_decode_from None bytes\<close>

section \<open>Steps the two exporters share\<close>

text \<open>
  \<^verbatim>\<open>copyDistFiles\<close>, \<^verbatim>\<open>fixIndexHtmlPaths\<close> and \<^verbatim>\<open>copyDirectory\<close> are the same
  code in both scripts, up to the staging directory's name and the platform named in a
  message (\<open>label\<close>: \<open>''Tizen''\<close> or \<open>''webOS''\<close>).
  \<^verbatim>\<open>
  function copyDistFiles() {
    if (!fs.existsSync(DIST_DIR)) {
      console.error('Error: dist directory not found. Please run "npx expo export --platform web" first.');
      process.exit(1);
    }
    if (fs.existsSync(TIZEN_DIR)) {
      fs.rmSync(TIZEN_DIR, { recursive: true, force: true });
    }
    fs.mkdirSync(TIZEN_DIR, { recursive: true });
    copyDirectory(DIST_DIR, TIZEN_DIR);
    console.log('... Copied dist files to Tizen build directory');
  }
  \<close>
\<close>

definition copyDistFiles :: \<open>string \<Rightarrow> world \<Rightarrow> outcome\<close> where
  \<open>copyDistFiles label w =
     (case dist w of
        None \<Rightarrow>
          Exit 1 (say Error
            ''Error: dist directory not found. Please run "npx expo export --platform web" first.'' w)
      | Some src \<Rightarrow>
          (let w1 = (if staging w \<noteq> None then w\<lparr>staging := None\<rparr> else w);
               w2 = w1\<lparr>staging := Some (Dir [])\<rparr>
           in case copyDirectory src (staging w2) of
                Ok n \<Rightarrow>
                  Next (say Log (check_mark @ '' Copied dist files to '' @ label @ '' build directory'')
                         (w2\<lparr>staging := Some n\<rparr>))
              | Fail e n \<Rightarrow> Thrown (error_message e) (w2\<lparr>staging := Some n\<rparr>)))\<close>

text \<open>
  \<^verbatim>\<open>
  function fixIndexHtmlPaths() {
    const indexPath = path.join(TIZEN_DIR, 'index.html');
    if (!fs.existsSync(indexPath)) {
      console.warn('... index.html not found, skipping path fixes');
      return;
    }
    let indexContent = fs.readFileSync(indexPath, 'utf8');
    ... the four replacements ...
    fs.writeFileSync(indexPath, indexContent);
    console.log('... Fixed paths in index.html to use relative URLs (no leading slash)');
  }
  \<close>
\<close>

definition fixIndexHtmlPaths :: \<open>world \<Rightarrow> outcome\<close> where
  \<open>fixIndexHtmlPaths w =
     (case entry (staging w) ''index.html'' of
        None \<Rightarrow> Next (say Warn (warning_sign @ '' index.html not found, skipping path fixes'') w)
      | Some (Dir d) \<Rightarrow> Thrown (error_message EISDIR) w
      | Some (File bytes) \<Rightarrow>
          (case write_file ''index.html'' (rewrite_paths (utf8_decode bytes)) (staging w) of
             Ok st \<Rightarrow>
               Next (say Log
                 (check_mark @ '' Fixed paths in index.html to use relative URLs (no leading slash)'')
                 (w\<lparr>staging := st\<rparr>))
           | Fail e st \<Rightarrow> Thrown (error_message e) (w\<lparr>staging := st\<rparr>)))\<close>


section \<open>The Samsung Tizen exporter\<close>

text \<open>
  \<^verbatim>\<open>TIZEN_CONFIG\<close>; only \<^verbatim>\<open>version: packageJson.version || '1.0.0'\<close> depends on the
  run. The fields of \<^verbatim>\<open>author\<close> are \<open>author_name\<close>, \<open>author_email\<close> and
  \<open>author_href\<close>.
\<close>

record tizen_config =
  packageId :: string
  appId :: string
  version :: jsval
  name :: string
  author_name :: string
  author_email :: string
  author_href :: string
  description :: string
  icon :: string
  content :: string
  privileges :: \<open>string list\<close>
  features :: \<open>string list\<close>

definition TIZEN_CONFIG :: \<open>jsval \<Rightarrow> tizen_config\<close> where
  \<open>TIZEN_CONFIG packageJson_version =
     \<lparr> packageId = ''MultiTVExpoApp'',
       appId = ''multitv.expoapp'',
       version = js_or packageJson_version (JStr ''1.0.0''),
       name = ''Multi-TV App'',
       author_name = ''Multi-TV'',
       author_email = ''developer@multitv.com'',
       author_href = ''https://multitv.com'',
       description = ''Multi-platform TV application built with React Native'',
       icon = ''icon.png'',
       content = ''index.html'',
       privileges =
         [''http://tizen.org/privilege/internet'',
          ''http://tizen.org/privilege/application.launch''],
       features = [''http://tizen.org/feature/screen.size.normal.1080.1920''] \<rparr>\<close>

text \<open>
  The template literal of \<^verbatim>\<open>createConfigXml\<close>, line by line: \<open>configXml_text cfg v\<close>
  is the text once \<^verbatim>\<open>${TIZEN_CONFIG.version}\<close> has been converted to the string
  \<open>v\<close> (the other fields are strings). \<open>configXml\<close> is \<open>None\<close> when that
  conversion throws.
\<close>

definition configXml_text :: \<open>tizen_config \<Rightarrow> string \<Rightarrow> string\<close> where
  \<open>configXml_text cfg v =
     intercalate newline
       [''<?xml version="1.0" encoding="UTF-8"?>'',
        ''<widget xmlns="http://www.w3.org/ns/widgets"'',
        ''        xmlns:tizen="http://tizen.org/ns/widgets"'',
        ''        id="'' @ packageId cfg @ ''"'',
        ''        version="'' @ v @ ''"'',
        ''        viewmodes="maximized">'',
        ''    <tizen:application id="'' @ appId cfg @ ''" package="'' @ packageId cfg @ ''" required_version="6.0"/>'',
        ''    <content src="'' @ content cfg @ ''"/>'',
        ''    <feature name="http://tizen.org/feature/screen.size.normal.1080.1920"/>'',
        ''    <icon src="'' @ icon cfg @ ''"/>'',
        ''    <name>'' @ name cfg @ ''</name>'',
        ''    <tizen:profile name="tv-samsung"/>'',
        ''    <tizen:privilege name="http://tizen.org/privilege/internet"/>'',
        ''    <tizen:privilege name="http://tizen.org/privilege/application.launch"/>'',
        ''    <tizen:setting screen-orientation="landscape"'',
        ''                   context-menu="enable"'',
        ''                   background-support="disable"'',
        ''                   encryption="disable"'',
        ''                   install-location="auto"'',
        ''                   hwkey-event="enable"/>'',
        ''    <description>'' @ description cfg @ ''</description>'',
        ''    <author email="'' @ author_email cfg @ ''"'',
        ''            href="'' @ author_href cfg @ ''">'',
        ''        '' @ author_name cfg,
        ''    </author>'',
        ''</widget>'']\<close>

definition configXml :: \<open>tizen_config \<Rightarrow> string option\<close> where
  \<open>configXml cfg = map_option (configXml_text cfg) (to_string (version cfg))\<close>

text \<open>
  \<^verbatim>\<open>
  const configPath = path.join(TIZEN_DIR, 'config.xml');
  fs.writeFileSync(configPath, configXml);
  console.log('... Created config.xml');
  \<close>
\<close>

definition createConfigXml :: \<open>tizen_config \<Rightarrow> world \<Rightarrow> outcome\<close> where
  \<open>createConfigXml cfg w =
     (case configXml cfg of
        None \<Rightarrow> Thrown type_error_message w
      | Some text \<Rightarrow>
          (case write_file ''config.xml'' text (staging w) of
             Ok st \<Rightarrow> Next (say Log (check_mark @ '' Created config.xml'') (w\<lparr>staging := st\<rparr>))
           | Fail e st \<Rightarrow> Thrown (error_message e) (w\<lparr>staging := st\<rparr>)))\<close>

text \<open>
  \<^verbatim>\<open>
  function handleIcons() {
    const iconsDir = path.join(__dirname, '../assets/images');
    const iconPath = path.join(TIZEN_DIR, TIZEN_CONFIG.icon);
    const placeholderIcon = path.join(iconsDir, 'icon-512.png');
    if (fs.existsSync(placeholderIcon)) {
      fs.copyFileSync(placeholderIcon, iconPath);
      console.log('... Copied 512x512 icon');
    } else {
      console.warn('... No 512x512 icon found. You need to add:');
      console.warn(`  - assets/images/icon-512.png (512x512 PNG)`);
    }
  }
  \<close>
\<close>

definition tizen_handleIcons :: \<open>tizen_config \<Rightarrow> world \<Rightarrow> outcome\<close> where
  \<open>tizen_handleIcons cfg w =
     (case images w ''icon-512.png'' of
        Some c \<Rightarrow>
          (case write_file (icon cfg) c (staging w) of
             Ok st \<Rightarrow> Next (say Log (check_mark @ '' Copied 512x512 icon'') (w\<lparr>staging := st\<rparr>))
           | Fail e st \<Rightarrow> Thrown (error_message e) (w\<lparr>staging := st\<rparr>))
      | None \<Rightarrow>
          Next (says Warn
            [warning_sign @ '' No 512x512 icon found. You need to add:'',
             ''  - assets/images/icon-512.png (512x512 PNG)''] w))\<close>

text \<open>
  \<^verbatim>\<open>
  function createWGT() {
    const { execSync } = require('child_process');
    try {
      execSync('which tizen', { stdio: 'ignore' });
      console.log('\n... Creating WGT package...');
      const wgtOutputDir = path.join(__dirname, '../');
      execSync(`tizen package -t wgt -s ${TIZEN_CONFIG.packageId} -o "${wgtOutputDir}" -- "${TIZEN_DIR}"`, { stdio: 'inherit' });
      console.log('... WGT package created successfully');
    } catch (error) {
      console.warn('\n... tizen CLI not found. To create a WGT package:');
      ... four more warnings ...
    }
  }
  \<close>
\<close>

definition tizen_package_command :: \<open>tizen_config \<Rightarrow> world \<Rightarrow> string\<close> where
  \<open>tizen_package_command cfg w =
     ''tizen package -t wgt -s '' @ packageId cfg @ '' -o "'' @ app_dir w @ ''" -- "''
       @ app_dir w @ ''tizen-build'' @ ''"''\<close>

definition tizen_cli_warning_lines :: \<open>tizen_config \<Rightarrow> string list\<close> where
  \<open>tizen_cli_warning_lines cfg =
     [newline @ warning_sign @ '' tizen CLI not found. To create a WGT package:'',
      ''  1. Install Tizen Studio: https://developer.tizen.org/development/tizen-studio/download'',
      ''  2. Add tizen CLI to your PATH'',
      ''  3. Create certificate: tizen certificate -a MyProfile -p <password>'',
      ''  4. Run: tizen package -t wgt -s '' @ packageId cfg @ '' -- tizen-build'']\<close>

definition tizen_cli_warning :: \<open>tizen_config \<Rightarrow> world \<Rightarrow> world\<close> where
  \<open>tizen_cli_warning cfg w = says Warn (tizen_cli_warning_lines cfg) w\<close>

definition createWGT :: \<open>exec_sync \<Rightarrow> tizen_config \<Rightarrow> world \<Rightarrow> outcome\<close> where
  \<open>createWGT exec cfg w =
     (case exec ''which tizen'' w of
        (False, w1) \<Rightarrow> Next (tizen_cli_warning cfg w1)
      | (True, w1) \<Rightarrow>
          (let w2 = say Log (newline @ package_sign @ '' Creating WGT package...'') w1 in
           case exec (tizen_package_command cfg w2) w2 of
             (True, w3) \<Rightarrow> Next (say Log (check_mark @ '' WGT package created successfully'') w3)
           | (False, w3) \<Rightarrow> Next (tizen_cli_warning cfg w3)))\<close>

definition tizen_displayInstructions :: \<open>tizen_config \<Rightarrow> world \<Rightarrow> outcome\<close> where
  \<open>tizen_displayInstructions cfg w =
     Next (says Log
       [newline @ replicate 60 CHR ''='',
        ''Tizen Build Complete!'',
        replicate 60 CHR ''='',
        newline @ ''Build directory: '' @ app_dir w @ ''tizen-build'',
        newline @ ''Next steps:'',
        ''  1. Review and customize config.xml if needed'',
        ''  2. Add proper icon (512x512 PNG)'',
        newline @ ''To create a WGT package:'',
        ''  1. Install Tizen Studio'',
        ''  2. Create a certificate:'',
        ''     tizen certificate -a MyProfile -p <password>'',
        ''  3. Create security profile:'',
        ''     tizen security-profiles add -n MyProfile -a /path/to/author.p12 -p <password>'',
        ''  4. Package the app:'',
        ''     tizen package -t wgt -s '' @ packageId cfg @ '' -- ''
          @ cwd_relative w (app_dir w @ ''tizen-build''),
        newline @ ''To install on your Samsung TV:'',
        ''  1. Enable developer mode on TV'',
        ''  2. Connect to TV:'',
        ''     tizen connect <tv-ip-address>'',
        ''  3. Install the app:'',
        ''     tizen install -n '' @ packageId cfg @ ''.wgt -t <tv-name>'',
        ''  4. Run the app:'',
        ''     tizen run -p '' @ packageId cfg @ '' -t <tv-name>'',
        replicate 60 CHR ''='' @ newline] w)\<close>

text \<open>
  \<^verbatim>\<open>
  function main() {
    console.log('Starting Tizen export process...\n');
    try {
      copyDistFiles(); fixIndexHtmlPaths(); createConfigXml();
      handleIcons(); createWGT(); displayInstructions();
    } catch (error) {
      console.error('Error during Tizen export:', error.message);
      process.exit(1);
    }
  }
  \<close>
  The steps are chained in this order; \<open>tizen_descriptor_steps\<close> names the first three.
  The result is the exit status and the world the process leaves; a script that runs to
  its end exits with status 0.
\<close>

definition tizen_descriptor_steps :: \<open>tizen_config \<Rightarrow> world \<Rightarrow> outcome\<close> where
  \<open>tizen_descriptor_steps cfg w =
     and_then (and_then (copyDistFiles ''Tizen'' w) fixIndexHtmlPaths) (createConfigXml cfg)\<close>

definition tizen_steps :: \<open>exec_sync \<Rightarrow> tizen_config \<Rightarrow> world \<Rightarrow> outcome\<close> where
  \<open>tizen_steps exec cfg w =
     and_then (and_then (and_then
       (tizen_descriptor_steps cfg w)
       (tizen_handleIcons cfg))
       (createWGT exec cfg))
       (tizen_displayInstructions cfg)\<close>

definition tizen_main :: \<open>exec_sync \<Rightarrow> tizen_config \<Rightarrow> world \<Rightarrow> nat \<times> world\<close> where
  \<open>tizen_main exec cfg w =
     (case tizen_steps exec cfg (say Log (''Starting Tizen export process...'' @ newline) w) of
        Next w' \<Rightarrow> (0, w')
      | Exit n w' \<Rightarrow> (n, w')
      | Thrown e w' \<Rightarrow>
          (1, say Error (''Error during Tizen export: '' @ e) w'))\<close>

text \<open>
  The whole script: the module's top level reads \<^verbatim>\<open>package.json\<close>
  \<^verbatim>\<open>
  let packageJson;
  try {
    packageJson = JSON.parse(fs.readFileSync(PACKAGE_JSON_PATH, 'utf8'));
  } catch (error) {
    console.error('Error reading package.json:', error.message);
    process.exit(1);
  }
  \<close>
  builds \<^verbatim>\<open>TIZEN_CONFIG\<close> and calls \<^verbatim>\<open>main()\<close>. When the file holds
  \<^verbatim>\<open>null\<close>, reading \<^verbatim>\<open>packageJson.version\<close> throws outside every \<^verbatim>\<open>try\<close>:
  Node reports the TypeError itself and exits with status 1.
\<close>

definition export_tizen :: \<open>exec_sync \<Rightarrow> world \<Rightarrow> nat \<times> world\<close> where
  \<open>export_tizen exec w =
     (case package_json w of
        Unreadable msg \<Rightarrow> (1, say Error (''Error reading package.json: '' @ msg) w)
      | Malformed msg \<Rightarrow> (1, say Error (''Error reading package.json: '' @ msg) w)
      | Parsed packageJson \<Rightarrow>
          (case get_version packageJson of
             None \<Rightarrow> (1, w)
           | Some v \<Rightarrow> tizen_main exec (TIZEN_CONFIG v) w))\<close>


section \<open>The LG webOS exporter\<close>

text \<open>
  \<^verbatim>\<open>WEBOS_CONFIG\<close>. The fields \<^verbatim>\<open>id\<close>, \<^verbatim>\<open>version\<close>, \<^verbatim>\<open>type\<close>, \<^verbatim>\<open>main\<close>
  and \<^verbatim>\<open>icon\<close> are \<open>wid\<close>, \<open>wversion\<close>, \<open>wtype\<close>, \<open>wmain\<close> and \<open>wicon\<close> here.
\<close>

record webos_config =
  wid :: string
  wversion :: jsval
  vendor :: string
  wtype :: string
  wmain :: string
  title :: string
  wicon :: string
  largeIcon :: string
  bgImage :: string
  appDescription :: string
  resolution :: string
  disableBackHistoryAPI :: bool
  handlesRelaunch :: bool

definition WEBOS_CONFIG :: \<open>jsval \<Rightarrow> webos_config\<close> where
  \<open>WEBOS_CONFIG packageJson_version =
     \<lparr> wid = ''com.multitv.expoapp'',
       wversion = js_or packageJson_version (JStr ''1.0.0''),
       vendor = ''Multi-TV'',
       wtype = ''web'',
       wmain = ''index.html'',
       title = ''Multi-TV App'',
       wicon = ''icon-80.png'',
       largeIcon = ''icon-130.png'',
       bgImage = ''splash.png'',
       appDescription = ''Multi-platform TV application built with React Native'',
       resolution = ''1920x1080'',
       disableBackHistoryAPI = True,
       handlesRelaunch = True \<rparr>\<close>

text \<open>
  \<^verbatim>\<open>
  function createAppInfo() {
    const appInfo = { id: WEBOS_CONFIG.id, version: WEBOS_CONFIG.version, ... };
    const appInfoPath = path.join(WEBOS_DIR, 'appinfo.json');
    fs.writeFileSync(appInfoPath, JSON.stringify(appInfo, null, 2));
    console.log('... Created appinfo.json');
  }
  \<close>
\<close>

definition appInfo :: \<open>webos_config \<Rightarrow> jsval\<close> where
  \<open>appInfo cfg =
     JObj [(''id'', JStr (wid cfg)),
           (''version'', wversion cfg),
           (''vendor'', JStr (vendor cfg)),
           (''type'', JStr (wtype cfg)),
           (''main'', JStr (wmain cfg)),
           (''title'', JStr (title cfg)),
           (''icon'', JStr (wicon cfg)),
           (''largeIcon'', JStr (largeIcon cfg)),
           (''bgImage'', JStr (bgImage cfg)),
           (''appDescription'', JStr (appDescription cfg)),
           (''resolution'', JStr (resolution cfg)),
           (''disableBackHistoryAPI'', JBool (disableBackHistoryAPI cfg)),
           (''handlesRelaunch'', JBool (handlesRelaunch cfg))]\<close>

definition createAppInfo :: \<open>webos_config \<Rightarrow> world \<Rightarrow> outcome\<close> where
  \<open>createAppInfo cfg w =
     (case write_file ''appinfo.json'' (json_stringify [] (appInfo cfg)) (staging w) of
        Ok st \<Rightarrow> Next (say Log (check_mark @ '' Created appinfo.json'') (w\<lparr>staging := st\<rparr>))
      | Fail e st \<Rightarrow> Thrown (error_message e) (w\<lparr>staging := st\<rparr>))\<close>

text \<open>
  \<^verbatim>\<open>handleIcons\<close> of the webOS script does three times what the Tizen one does once:
  \<^verbatim>\<open>
  if (fs.existsSync(placeholderIcon80)) {
    fs.copyFileSync(placeholderIcon80, icon80Path);
    console.log('... Copied 80x80 icon');
  } else {
    console.warn('... No 80x80 icon found. You need to add:');
    console.warn(`  - assets/images/icon-80.png (80x80 PNG)`);
  }
  \<close>
  \<open>copy_asset source target copied missing\<close> is one such block.
\<close>

definition copy_asset :: \<open>string \<Rightarrow> string \<Rightarrow> string \<Rightarrow> string list \<Rightarrow> world \<Rightarrow> outcome\<close> where
  \<open>copy_asset source target copied missing w =
     (case images w source of
        Some c \<Rightarrow>
          (case write_file target c (staging w) of
             Ok st \<Rightarrow> Next (say Log copied (w\<lparr>staging := st\<rparr>))
           | Fail e st \<Rightarrow> Thrown (error_message e) (w\<lparr>staging := st\<rparr>))
      | None \<Rightarrow> Next (says Warn missing w))\<close>

definition webos_handleIcons :: \<open>webos_config \<Rightarrow> world \<Rightarrow> outcome\<close> where
  \<open>webos_handleIcons cfg w =
     and_then (and_then
       (copy_asset ''icon-80.png'' (wicon cfg) (check_mark @ '' Copied 80x80 icon'')
          [warning_sign @ '' No 80x80 icon found. You need to add:'',
           ''  - assets/images/icon-80.png (80x80 PNG)''] w)
       (copy_asset ''icon-130.png'' (largeIcon cfg) (check_mark @ '' Copied 130x130 icon'')
          [warning_sign @ '' No 130x130 icon found. You need to add:'',
           ''  - assets/images/icon-130.png (130x130 PNG)'']))
       (copy_asset ''splash-1920x1080.png'' (bgImage cfg) (check_mark @ '' Copied splash image'')
          [warning_sign @ '' No splash image found. You may want to add:'',
           ''  - assets/images/splash-1920x1080.png (1920x1080 PNG)''])\<close>

text \<open>
  \<^verbatim>\<open>
  function createIPK() {
    const { execSync } = require('child_process');
    try {
      execSync('which ares-package', { stdio: 'ignore' });
      console.log('\n... Creating IPK package...');
      const ipkOutputDir = path.join(__dirname, '../');
      execSync(`ares-package "${WEBOS_DIR}" -o "${ipkOutputDir}" --no-minify`, { stdio: 'inherit' });
      console.log('... IPK package created successfully');
    } catch (error) {
      console.warn('\n... ares-package not found. To create an IPK package:');
      console.warn('  1. Install webOS CLI: npm install -g @webos-tools/cli');
      console.warn('  2. Run: ares-package webos-build --no-minify');
    }
  }
  \<close>
\<close>

definition webos_package_command :: \<open>world \<Rightarrow> string\<close> where
  \<open>webos_package_command w =
     ''ares-package "'' @ app_dir w @ ''webos-build'' @ ''" -o "'' @ app_dir w @ ''" --no-minify''\<close>

definition webos_cli_warning_lines :: \<open>string list\<close> where
  \<open>webos_cli_warning_lines =
     [newline @ warning_sign @ '' ares-package not found. To create an IPK package:'',
      ''  1. Install webOS CLI: npm install -g @webos-tools/cli'',
      ''  2. Run: ares-package webos-build --no-minify'']\<close>

definition webos_cli_warning :: \<open>world \<Rightarrow> world\<close> where
  \<open>webos_cli_warning w = says Warn webos_cli_warning_lines w\<close>

definition createIPK :: \<open>exec_sync \<Rightarrow> world \<Rightarrow> outcome\<close> where
  \<open>createIPK exec w =
     (case exec ''which ares-package'' w of
        (False, w1) \<Rightarrow> Next (webos_cli_warning w1)
      | (True, w1) \<Rightarrow>
          (let w2 = say Log (newline @ package_sign @ '' Creating IPK package...'') w1 in
           case exec (webos_package_command w2) w2 of
             (True, w3) \<Rightarrow> Next (say Log (check_mark @ '' IPK package created successfully'') w3)
           | (False, w3) \<Rightarrow> Next (webos_cli_warning w3)))\<close>

definition webos_displayInstructions :: \<open>world \<Rightarrow> outcome\<close> where
  \<open>webos_displayInstructions w =
     Next (says Log
       [newline @ replicate 60 CHR ''='',
        ''webOS Build Complete!'',
        replicate 60 CHR ''='',
        newline @ ''Build directory: '' @ app_dir w @ ''webos-build'',
        newline @ ''Next steps:'',
        ''  1. Review and customize appinfo.json if needed'',
        ''  2. Add proper icons (80x80 and 130x130 PNG)'',
        ''  3. Add splash image (1920x1080 PNG) if desired'',
        newline @ ''To create an IPK package:'',
        ''  npm install -g @webos-tools/cli'',
        ''  ares-package '' @ cwd_relative w (app_dir w @ ''webos-build''),
        newline @ ''To install on your LG TV:'',
        ''  ares-setup-device --add <device-name> <ip-address>'',
        ''  ares-install --device <device-name> com.multitv.expoapp_*.ipk'',
        ''  ares-launch --device <device-name> com.multitv.expoapp'',
        replicate 60 CHR ''='' @ newline] w)\<close>

definition webos_descriptor_steps :: \<open>webos_config \<Rightarrow> world \<Rightarrow> outcome\<close> where
  \<open>webos_descriptor_steps cfg w =
     and_then (and_then (copyDistFiles ''webOS'' w) fixIndexHtmlPaths) (createAppInfo cfg)\<close>

definition webos_steps :: \<open>exec_sync \<Rightarrow> webos_config \<Rightarrow> world \<Rightarrow> outcome\<close> where
  \<open>webos_steps exec cfg w =
     and_then (and_then (and_then
       (webos_descriptor_steps cfg w)
       (webos_handleIcons cfg))
       (createIPK exec))
       webos_displayInstructions\<close>

definition webos_main :: \<open>exec_sync \<Rightarrow> webos_config \<Rightarrow> world \<Rightarrow> nat \<times> world\<close> where
  \<open>webos_main exec cfg w =
     (case webos_steps exec cfg (say Log (''Starting webOS export process...'' @ newline) w) of
        Next w' \<Rightarrow> (0, w')
      | Exit n w' \<Rightarrow> (n, w')
      | Thrown e w' \<Rightarrow>
          (1, say Error (''Error during webOS export: '' @ e) w'))\<close>

definition export_webos :: \<open>exec_sync \<Rightarrow> world \<Rightarrow> nat \<times> world\<close> where
  \<open>export_webos exec w =
     (case package_json w of
        Unreadable msg \<Rightarrow> (1, say Error (''Error reading package.json: '' @ msg) w)
      | Malformed msg \<Rightarrow> (1, say Error (''Error reading package.json: '' @ msg) w)
      | Parsed packageJson \<Rightarrow>
          (case get_version packageJson of
             None \<Rightarrow> (1, w)
           | Some v \<Rightarrow> webos_main exec (WEBOS_CONFIG v) w))\<close>


section \<open>Reading a descriptor\<close>

text \<open>
  How a generated descriptor opens when its version is the text \<open>v\<close>:
  \<open>widget_opening v\<close> is the XML declaration and the opening tag of the
  \<^verbatim>\<open>widget\<close> element of \<^verbatim>\<open>config.xml\<close>, with \<open>v\<close> as the value of its
  \<^verbatim>\<open>version\<close> attribute; \<open>appinfo_opening j\<close> is the start of
  \<^verbatim>\<open>appinfo.json\<close> up to the end of the \<^verbatim>\<open>"version"\<close> line, with the JSON
  text \<open>j\<close> as its value. The theorems on the version compare the descriptors with them.
\<close>

definition widget_opening :: \<open>string \<Rightarrow> string\<close> where
  \<open>widget_opening v =
     intercalate newline
       [''<?xml version="1.0" encoding="UTF-8"?>'',
        ''<widget xmlns="http://www.w3.org/ns/widgets"'',
        ''        xmlns:tizen="http://tizen.org/ns/widgets"'',
        ''        id="MultiTVExpoApp"'',
        ''        version="'' @ v @ ''"'',
        ''        viewmodes="maximized">'']\<close>

definition appinfo_opening :: \<open>string \<Rightarrow> string\<close> where
  \<open>appinfo_opening j =
     intercalate newline
       [''{'',
        ''  "id": "com.multitv.expoapp",'',
        ''  "version": '' @ j @ '','']\<close>

text \<open>A character \<^verbatim>\<open>JSON.stringify\<close> copies as it is.\<close>

definition json_plain :: \<open>char \<Rightarrow> bool\<close> where
  \<open>json_plain c = (c \<noteq> dquote \<and> c \<noteq> backslash \<and> 32 \<le> (of_char c :: nat))\<close>

text \<open>
  What a run leaves to be read: \<open>opens_with p n\<close> says that \<open>n\<close> is a file whose text
  starts with \<open>p\<close>. \<open>tizen_descriptor_shows exec w v\<close> says that the Tizen script, run in
  the world \<open>w\<close>, leaves a \<^verbatim>\<open>config.xml\<close> in its staging directory that opens as
  \<open>widget_opening v\<close>; \<open>webos_descriptor_shows exec w j\<close> is the same for the webOS script
  and \<^verbatim>\<open>appinfo.json\<close>. The packaging tool runs after the descriptor is written and
  is not part of the repository: \<open>keeps_file exec f\<close> says that no command it runs
  changes what is at \<open>f\<close> in the staging directory.
\<close>

definition opens_with :: \<open>string \<Rightarrow> node option \<Rightarrow> bool\<close> where
  \<open>opens_with p n = (case n of Some (File text) \<Rightarrow> prefix p text | _ \<Rightarrow> False)\<close>

definition tizen_descriptor_shows :: \<open>exec_sync \<Rightarrow> world \<Rightarrow> string \<Rightarrow> bool\<close> where
  \<open>tizen_descriptor_shows exec w v =
     opens_with (widget_opening v) (entry (staging (snd (export_tizen exec w))) ''config.xml'')\<close>

definition webos_descriptor_shows :: \<open>exec_sync \<Rightarrow> world \<Rightarrow> string \<Rightarrow> bool\<close> where
  \<open>webos_descriptor_shows exec w j =
     opens_with (appinfo_opening j) (entry (staging (snd (export_webos exec w))) ''appinfo.json'')\<close>

definition keeps_file :: \<open>exec_sync \<Rightarrow> string \<Rightarrow> bool\<close> where
  \<open>keeps_file exec f =
     (\<forall>command v. entry (staging (snd (exec command v))) f = entry (staging v) f)\<close>

section \<open>Content whose double quotes pair up\<close>

text \<open>
  The theorems on the path rewriting speak of content in which the double quotes come
  in pairs: \<open>render d e\<close> is the text \<^verbatim>\<open>t1 "v1" t2 "v2" ... e\<close> for the list \<open>d\<close> of
  pairs \<open>(t, v)\<close> (some text, then a quoted value) and the closing text \<open>e\<close>. It is
  \<open>paired\<close> when no text and no value holds a double quote (so the quotes of the
  rendered text are exactly the delimiters) and no value ends in \<^verbatim>\<open>src=\<close> or
  \<^verbatim>\<open>href=\<close> (so no closing quote can be taken for an opening one).
\<close>

definition quote_free :: \<open>string \<Rightarrow> bool\<close> where
  \<open>quote_free s = list_all (\<lambda>c. c \<noteq> dquote) s\<close>

fun render :: \<open>(string \<times> string) list \<Rightarrow> string \<Rightarrow> string\<close> where
  \<open>render [] e = e\<close>
| \<open>render ((t, v) # d) e = t @ dquote # v @ dquote # render d e\<close>

definition paired_value :: \<open>string \<times> string \<Rightarrow> bool\<close> where
  \<open>paired_value p =
     (quote_free (fst p) \<and> quote_free (snd p) \<and>
      \<not> suffix ''src='' (snd p) \<and> \<not> suffix ''href='' (snd p))\<close>

definition paired :: \<open>(string \<times> string) list \<Rightarrow> string \<Rightarrow> bool\<close> where
  \<open>paired d e = (list_all paired_value d \<and> quote_free e)\<close>


text \<open>
  A value \<^verbatim>\<open>/X\<close> with \<open>X\<close> not empty is \<open>strippable\<close>. \<open>relative\<close> is what the
  rewriting is to do with a quoted value: strip its leading slash when it is strippable
  and directly follows \<^verbatim>\<open>src=\<close> or \<^verbatim>\<open>href=\<close>. \<open>strip_expo a\<close> and
  \<open>strip_slash a\<close> describe one prefix pass and one generic pass for the attribute \<open>a\<close>,
  whose pattern and replacement in the prefix pass are \<open>expo_pattern a\<close> and
  \<open>expo_replacement a\<close>.
\<close>

fun strippable :: \<open>string \<Rightarrow> bool\<close> where
  \<open>strippable (c # d # x) = (c = CHR ''/'')\<close>
| \<open>strippable x = False\<close>

definition relative :: \<open>string \<times> string \<Rightarrow> string \<times> string\<close> where
  \<open>relative p =
     (fst p,
      if (suffix ''src='' (fst p) \<or> suffix ''href='' (fst p)) \<and> strippable (snd p)
      then tl (snd p) else snd p)\<close>

definition expo_pattern :: \<open>string \<Rightarrow> string\<close> where
  \<open>expo_pattern a = a @ ''="/_expo/''\<close>

definition expo_replacement :: \<open>string \<Rightarrow> string\<close> where
  \<open>expo_replacement a = a @ ''="_expo/''\<close>

definition strip_expo :: \<open>string \<Rightarrow> string \<times> string \<Rightarrow> string \<times> string\<close> where
  \<open>strip_expo a p =
     (fst p, if suffix (a @ ''='') (fst p) \<and> prefix ''/_expo/'' (snd p) then tl (snd p) else snd p)\<close>

definition strip_slash :: \<open>string \<Rightarrow> string \<times> string \<Rightarrow> string \<times> string\<close> where
  \<open>strip_slash a p =
     (fst p, if suffix (a @ ''='') (fst p) \<and> strippable (snd p) then tl (snd p) else snd p)\<close>

section \<open>A sample run\<close>

text \<open>
  A small world on which the theorems below are instantiated: a web export of two
  files, a staging directory left by an earlier run, no icons, and no packaging tool
  on the path. \<open>tizen_described\<close> is that world after the Tizen script has copied,
  rewritten and written its descriptor, \<open>tizen_staged\<close> after its icon step, and
  \<open>webos_staged\<close> the same for the webOS script.
\<close>

definition sample_dist :: node where
  \<open>sample_dist =
     Dir [(''index.html'', File ''<script src="/_expo/app.js"></script><img src="/logo.png">''),
          (''_expo'', Dir [(''app.js'', File ''console.log(1)'')])]\<close>

definition sample_world :: world where
  \<open>sample_world =
     \<lparr> package_json = Parsed (JObj [(''name'', JStr ''expo-multi-tv'')]),
       dist = Some sample_dist,
       staging = Some (Dir [(''stale.txt'', File ''old'')]),
       images = (\<lambda>name. None),
       console = [],
       app_dir = ''/app/'',
       cwd_relative = (\<lambda>p. p) \<rparr>\<close>

definition no_cli :: exec_sync where
  \<open>no_cli command w = (False, w)\<close>


definition sample_index :: string where
  \<open>sample_index = ''<script src="_expo/app.js"></script><img src="logo.png">''\<close>

definition tizen_described :: world where
  \<open>tizen_described =
     sample_world
       \<lparr> staging := Some (Dir [(''index.html'', File sample_index),
                               (''_expo'', Dir [(''app.js'', File ''console.log(1)'')]),
                               (''config.xml'', File (configXml_text (TIZEN_CONFIG JUndefined) ''1.0.0''))]),
         console :=
           [(Log, ''Starting Tizen export process...'' @ newline),
            (Log, check_mark @ '' Copied dist files to Tizen build directory''),
            (Log, check_mark @ '' Fixed paths in index.html to use relative URLs (no leading slash)''),
            (Log, check_mark @ '' Created config.xml'')] \<rparr>\<close>

definition tizen_staged :: world where
  \<open>tizen_staged =
     tizen_described
       \<lparr> console := console tizen_described @
           [(Warn, warning_sign @ '' No 512x512 icon found. You need to add:''),
            (Warn, ''  - assets/images/icon-512.png (512x512 PNG)'')] \<rparr>\<close>

definition webos_staged :: world where
  \<open>webos_staged =
     sample_world
       \<lparr> staging := Some (Dir [(''index.html'', File sample_index),
                               (''_expo'', Dir [(''app.js'', File ''console.log(1)'')]),
                               (''appinfo.json'', File (json_stringify [] (appInfo (WEBOS_CONFIG JUndefined))))]),
         console :=
           [(Log, ''Starting webOS export process...'' @ newline),
            (Log, check_mark @ '' Copied dist files to webOS build directory''),
            (Log, check_mark @ '' Fixed paths in index.html to use relative URLs (no leading slash)''),
            (Log, check_mark @ '' Created appinfo.json''),
            (Warn, warning_sign @ '' No 80x80 icon found. You need to add:''),
            (Warn, ''  - assets/images/icon-80.png (80x80 PNG)''),
            (Warn, warning_sign @ '' No 130x130 icon found. You need to add:''),
            (Warn, ''  - assets/images/icon-130.png (130x130 PNG)''),
            (Warn, warning_sign @ '' No splash image found. You may want to add:''),
            (Warn, ''  - assets/images/splash-1920x1080.png (1920x1080 PNG)'')] \<rparr>\<close>


section \<open>Properties of the steps\<close>

subsection \<open>Auxiliary facts\<close>

lemma and_then_Exit [simp]: \<open>and_then (Exit n w) f = Exit n w\<close>
  by (simp add: and_then_def)

lemma and_then_Thrown [simp]: \<open>and_then (Thrown e w) f = Thrown e w\<close>
  by (simp add: and_then_def)

lemma and_then_Next [simp]: \<open>and_then (Next w) f = f w\<close>
  by (simp add: and_then_def)

lemma say_fields [simp]:
  \<open>dist (say st m w) = dist w\<close> \<open>staging (say st m w) = staging w\<close>
  \<open>images (say st m w) = images w\<close> \<open>package_json (say st m w) = package_json w\<close>
  \<open>app_dir (say st m w) = app_dir w\<close> \<open>cwd_relative (say st m w) = cwd_relative w\<close>
  \<open>console (say st m w) = console w @ [(st, m)]\<close>
  by (simp_all add: say_def)

lemma says_fields [simp]:
  \<open>dist (says st ms w) = dist w\<close> \<open>staging (says st ms w) = staging w\<close>
  \<open>images (says st ms w) = images w\<close> \<open>package_json (says st ms w) = package_json w\<close>
  \<open>app_dir (says st ms w) = app_dir w\<close> \<open>cwd_relative (says st ms w) = cwd_relative w\<close>
  \<open>console (says st ms w) = console w @ map (Pair st) ms\<close>
  by (simp_all add: says_def)

lemma update_fresh: \<open>k \<notin> fst ` set d \<Longrightarrow> AList.update k v d = d @ [(k, v)]\<close>
  by (induction d) auto

lemma map_of_fresh: \<open>k \<notin> fst ` set d \<Longrightarrow> map_of d k = None\<close>
  by (simp add: map_of_eq_None_iff)

lemma copyEntries_fresh:
  assumes \<open>\<And>name sub. (name, Dir sub) \<in> set es \<Longrightarrow> copyDirectory (Dir sub) None = Ok (Dir sub)\<close>
    and \<open>distinct (map fst d @ map fst es)\<close>
  shows \<open>copyEntries es d = Ok (d @ es)\<close>
  using assms
proof (induction es arbitrary: d)
  case Nil
  then show ?case by simp
next
  case (Cons e es)
  obtain name n where e: \<open>e = (name, n)\<close> by (cases e)
  from Cons.prems(2) e have fresh: \<open>name \<notin> fst ` set d\<close> by auto
  from Cons.prems(2) e have dist: \<open>distinct (map fst (d @ [(name, n)]) @ map fst es)\<close> by auto
  have sub: \<open>copyDirectory (Dir sub) None = Ok (Dir sub)\<close>
    if \<open>(name', Dir sub) \<in> set es\<close> for name' sub
    using Cons.prems(1) [of name' sub] that by (meson list.set_intros(2))
  have rest: \<open>copyEntries es (d @ [(name, n)]) = Ok ((d @ [(name, n)]) @ es)\<close>
    by (rule Cons.IH [OF sub dist])
  show ?case
  proof (cases n)
    case (File c)
    then show ?thesis
      using rest e by (simp add: map_of_fresh [OF fresh] update_fresh [OF fresh])
  next
    case (Dir sub)
    then have \<open>copyDirectory (Dir sub) None = Ok (Dir sub)\<close>
      using Cons.prems(1) [of name sub] e by (meson list.set_intros(1))
    then show ?thesis
      using rest e Dir
      by (simp only: copyEntries.simps map_of_fresh [OF fresh] update_fresh [OF fresh]
            result.case append_assoc append_Cons append_Nil)
  qed
qed

lemma copyDirectory_fresh:
  \<open>wf_node n \<Longrightarrow> n = Dir es \<Longrightarrow> copyDirectory n None = Ok n\<close>
proof (induction n arbitrary: es)
  case (File c)
  then show ?case by simp
next
  case (Dir xs)
  have sub: \<open>copyDirectory (Dir sub) None = Ok (Dir sub)\<close> if \<open>(name, Dir sub) \<in> set xs\<close> for name sub
  proof -
    from Dir.prems(1) have \<open>\<forall>e\<in>set xs. wf_node (snd e)\<close>
      by (simp add: list_all_iff)
    from this that have \<open>wf_node (snd (name, Dir sub))\<close> by (rule bspec)
    then have \<open>wf_node (Dir sub)\<close> by (simp only: snd_conv)
    then show ?thesis
      using Dir.IH [of \<open>(name, Dir sub)\<close> \<open>Dir sub\<close> sub] that by simp
  qed
  have \<open>copyEntries xs [] = Ok ([] @ xs)\<close>
    using copyEntries_fresh [of xs \<open>[]\<close>] sub Dir.prems(1) by simp
  then show ?case by simp
qed

lemma copyDirectory_into_empty:
  assumes \<open>wf_node (Dir es)\<close>
  shows \<open>copyDirectory (Dir es) (Some (Dir [])) = Ok (Dir es)\<close>
proof -
  have \<open>copyDirectory (Dir es) None = Ok (Dir es)\<close>
    using copyDirectory_fresh [OF assms] by simp
  then show ?thesis by (simp split: result.splits)
qed

lemma json_escape_plain: \<open>json_plain c \<Longrightarrow> json_escape c = [c]\<close>
  by (auto simp: json_plain_def json_escape_def dquote_def backslash_def)

lemma json_quote_plain: \<open>list_all json_plain s \<Longrightarrow> json_quote s = dquote # s @ [dquote]\<close>
proof -
  assume \<open>list_all json_plain s\<close>
  then have \<open>concat (map json_escape s) = s\<close>
    by (induction s) (simp_all add: json_escape_plain)
  then show ?thesis by (simp add: json_quote_def)
qed

lemma json_quote_key [simp]:
  \<open>json_quote ''id'' = ''"id"''\<close>
  \<open>json_quote ''version'' = ''"version"''\<close>
  \<open>json_quote ''com.multitv.expoapp'' = ''"com.multitv.expoapp"''\<close>
  \<open>json_quote ''1.0.0'' = ''"1.0.0"''\<close>
  by (simp_all add: json_quote_plain json_plain_def dquote_def backslash_def)

lemma configXml_opening:
  \<open>prefix (widget_opening t) (configXml_text (TIZEN_CONFIG v) t)\<close>
  by (simp add: widget_opening_def configXml_text_def TIZEN_CONFIG_def newline_def)

lemma configXml_string:
  \<open>version cfg = JStr t \<Longrightarrow> configXml cfg = Some (configXml_text cfg t)\<close>
  by (simp add: configXml_def)

lemma truthy_defined: \<open>truthy v \<Longrightarrow> v \<noteq> JUndefined\<close>
  by auto

lemma js_or_defined: \<open>js_or v (JStr ''1.0.0'') \<noteq> JUndefined\<close>
  by (auto simp: js_or_def)

lemma appinfo_opening_prefix:
  \<open>prefix (appinfo_opening (json_stringify ''  '' (js_or v (JStr ''1.0.0''))))
     (json_stringify [] (appInfo (WEBOS_CONFIG v)))\<close>
  using js_or_defined [of v]
  by (simp add: appinfo_opening_def appInfo_def WEBOS_CONFIG_def newline_def)

lemma write_file_entry:
  \<open>write_file k c st = Ok st' \<Longrightarrow> entry st' k = Some (File c)\<close>
  by (cases \<open>(k, c, st)\<close> rule: write_file.cases)
     (auto simp: AList.update_conv' split: option.splits node.splits)

lemma createConfigXml_writes:
  \<open>createConfigXml cfg w = Next w' \<Longrightarrow>
     \<exists>text. configXml cfg = Some text \<and> entry (staging w') ''config.xml'' = Some (File text)\<close>
  by (auto simp: createConfigXml_def split: option.splits result.splits dest: write_file_entry)

lemma createAppInfo_writes:
  \<open>createAppInfo cfg w = Next w' \<Longrightarrow>
     entry (staging w') ''appinfo.json'' = Some (File (json_stringify [] (appInfo cfg)))\<close>
  by (auto simp: createAppInfo_def split: result.splits dest: write_file_entry)

lemma createWGT_Next: \<open>\<exists>w'. createWGT exec cfg w = Next w'\<close>
  by (auto simp: createWGT_def Let_def split: prod.splits bool.splits)

lemma tizen_displayInstructions_Next: \<open>\<exists>w'. tizen_displayInstructions cfg w = Next w'\<close>
  by (simp add: tizen_displayInstructions_def)

lemma createWGT_unavailable:
  assumes \<open>exec ''which tizen'' w4 = (False, w5) \<or>
     (\<exists>w'. exec ''which tizen'' w4 = (True, w') \<and>
        exec (tizen_package_command cfg (say Log (newline @ package_sign @ '' Creating WGT package...'') w'))
             (say Log (newline @ package_sign @ '' Creating WGT package...'') w') = (False, w5))\<close>
  shows \<open>createWGT exec cfg w4 = Next (tizen_cli_warning cfg w5)\<close>
  using assms by (auto simp: createWGT_def Let_def)

lemma createIPK_unavailable:
  assumes \<open>exec ''which ares-package'' w4 = (False, w5) \<or>
     (\<exists>w'. exec ''which ares-package'' w4 = (True, w') \<and>
        exec (webos_package_command (say Log (newline @ package_sign @ '' Creating IPK package...'') w'))
             (say Log (newline @ package_sign @ '' Creating IPK package...'') w') = (False, w5))\<close>
  shows \<open>createIPK exec w4 = Next (webos_cli_warning w5)\<close>
  using assms by (auto simp: createIPK_def Let_def)

lemma tizen_report:
  \<open>tizen_displayInstructions cfg w = Next w' \<Longrightarrow>
     staging w' = staging w \<and> dist w' = dist w \<and> (\<exists>rest. console w' = console w @ rest)\<close>
  by (auto simp: tizen_displayInstructions_def)

lemma webos_report:
  \<open>webos_displayInstructions w = Next w' \<Longrightarrow>
     staging w' = staging w \<and> dist w' = dist w \<and> (\<exists>rest. console w' = console w @ rest)\<close>
  by (auto simp: webos_displayInstructions_def)

lemma utf8_decode_ascii:
  \<open>list_all (\<lambda>b. (of_char b :: nat) < 128) bytes \<Longrightarrow> utf8_decode bytes = bytes\<close>
  unfolding utf8_decode_def
  by (induction bytes) (auto simp: utf8_first_def Let_def)

lemma sample_decode:
  \<open>utf8_decode ''<script src="/_expo/app.js"></script><img src="/logo.png">''
     = ''<script src="/_expo/app.js"></script><img src="/logo.png">''\<close>
  by (rule utf8_decode_ascii) simp

lemma sample_rewrite:
  \<open>rewrite_paths ''<script src="/_expo/app.js"></script><img src="/logo.png">'' = sample_index\<close>
  by (simp add: rewrite_paths_def rewrite_expo_def rewrite_generic_def match_attr_def dquote_def
        sample_index_def)

lemma sample_configXml:
  \<open>configXml (TIZEN_CONFIG JUndefined) = Some (configXml_text (TIZEN_CONFIG JUndefined) ''1.0.0'')\<close>
  by (rule configXml_string) (simp add: TIZEN_CONFIG_def js_or_def)

lemma sample_tizen_described:
  \<open>tizen_descriptor_steps (TIZEN_CONFIG JUndefined)
      (say Log (''Starting Tizen export process...'' @ newline) sample_world) = Next tizen_described\<close>
  by (simp add: tizen_descriptor_steps_def copyDistFiles_def fixIndexHtmlPaths_def
        createConfigXml_def sample_world_def sample_dist_def tizen_described_def say_def
        sample_decode sample_rewrite sample_configXml Let_def)

lemma sample_tizen_staged:
  \<open>and_then (tizen_descriptor_steps (TIZEN_CONFIG JUndefined)
      (say Log (''Starting Tizen export process...'' @ newline) sample_world))
      (tizen_handleIcons (TIZEN_CONFIG JUndefined)) = Next tizen_staged\<close>
  unfolding sample_tizen_described and_then_Next
  by (simp add: tizen_handleIcons_def tizen_described_def tizen_staged_def sample_world_def says_def)

lemma sample_webos_staged:
  \<open>and_then (webos_descriptor_steps (WEBOS_CONFIG JUndefined)
      (say Log (''Starting webOS export process...'' @ newline) sample_world))
      (webos_handleIcons (WEBOS_CONFIG JUndefined)) = Next webos_staged\<close>
  by (simp add: webos_descriptor_steps_def copyDistFiles_def fixIndexHtmlPaths_def
        createAppInfo_def sample_world_def sample_dist_def webos_staged_def say_def says_def
        sample_decode sample_rewrite Let_def webos_handleIcons_def copy_asset_def)

subsection \<open>Scanning content whose quotes pair up\<close>

text \<open>
  A match of either kind of pattern holds the text \<^verbatim>\<open>a="\<close>, so the scan can match
  only where \<^verbatim>\<open>a=\<close> stands right before a double quote. In paired content that
  quote opens a value; the lemmas follow the scan through a text, a value and a whole
  rendered list.
\<close>

lemma quote_free_simps [simp]:
  \<open>quote_free []\<close>
  \<open>quote_free (c # s) \<longleftrightarrow> c \<noteq> dquote \<and> quote_free s\<close>
  \<open>quote_free (s @ s') \<longleftrightarrow> quote_free s \<and> quote_free s'\<close>
  by (auto simp: quote_free_def)

lemma quote_free_takeWhile:
  \<open>quote_free u \<Longrightarrow> takeWhile (\<lambda>c. c \<noteq> dquote) (u @ dquote # r) = u\<close>
  by (induction u) auto

lemma quote_free_dropWhile:
  \<open>quote_free u \<Longrightarrow> dropWhile (\<lambda>c. c \<noteq> dquote) (u @ dquote # r) = dquote # r\<close>
  by (induction u) auto

lemma first_quote:
  assumes \<open>quote_free u\<close> and \<open>quote_free u'\<close> and \<open>u @ dquote # r = u' @ dquote # r'\<close>
  shows \<open>u = u'\<close>
  using quote_free_takeWhile [OF assms(1), of r] quote_free_takeWhile [OF assms(2), of r'] assms(3)
  by simp

lemma no_start:
  assumes \<open>quote_free a\<close> and \<open>quote_free u\<close>
    and \<open>prefix (a @ CHR ''='' # dquote # z) (u @ dquote # r)\<close>
  shows \<open>u = a @ ''=''\<close>
proof -
  from assms(3) obtain y where \<open>u @ dquote # r = (a @ ''='') @ dquote # (z @ y)\<close>
    by (auto simp: prefix_def)
  moreover have \<open>quote_free (a @ ''='')\<close>
    using assms(1) by (simp add: dquote_def)
  ultimately show ?thesis
    using first_quote [OF assms(2)] by blast
qed

lemma match_attr_prefix:
  \<open>match_attr a s = Some m \<Longrightarrow> prefix (a @ CHR ''='' # dquote # ''/'') s\<close>
  by (auto simp: match_attr_def strip_prefix_Some_iff dquote_def split: option.splits)

lemma replace_attr_text:
  assumes \<open>quote_free a\<close> and \<open>quote_free (u @ u1)\<close>
    and \<open>\<forall>k<length u. drop k (u @ u1) \<noteq> a @ ''=''\<close>
  shows \<open>replace_attr a (u @ u1 @ dquote # r) = u @ replace_attr a (u1 @ dquote # r)\<close>
  using assms(2,3)
proof (induction u)
  case Nil
  then show ?case by simp
next
  case (Cons c u)
  have \<open>match_attr a ((c # u @ u1) @ dquote # r) = None\<close>
  proof (rule ccontr)
    assume \<open>match_attr a ((c # u @ u1) @ dquote # r) \<noteq> None\<close>
    then obtain m where \<open>match_attr a ((c # u @ u1) @ dquote # r) = Some m\<close> by blast
    then have \<open>c # u @ u1 = a @ ''=''\<close>
      using no_start [OF assms(1), of \<open>c # u @ u1\<close>] Cons.prems(1) match_attr_prefix by fastforce
    with Cons.prems(2) show False by force
  qed
  then have \<open>replace_attr a ((c # u) @ u1 @ dquote # r) = c # replace_attr a (u @ u1 @ dquote # r)\<close>
    by simp
  moreover have \<open>\<forall>k<length u. drop k (u @ u1) \<noteq> a @ ''=''\<close>
  proof (intro allI impI)
    fix k assume \<open>k < length u\<close>
    then show \<open>drop k (u @ u1) \<noteq> a @ ''=''\<close>
      using Cons.prems(2) [rule_format, of \<open>Suc k\<close>] by simp
  qed
  ultimately show ?case
    using Cons.IH Cons.prems(1) by simp
qed

lemma replace_attr_value:
  assumes \<open>quote_free a\<close> and \<open>quote_free v\<close> and \<open>\<not> suffix (a @ ''='') v\<close>
  shows \<open>replace_attr a (v @ dquote # r) = v @ replace_attr a (dquote # r)\<close>
proof -
  have \<open>\<forall>k<length v. drop k (v @ []) \<noteq> a @ ''=''\<close>
  proof (intro allI impI)
    fix k
    have \<open>suffix (drop k v) v\<close> by (rule suffix_drop)
    with assms(3) show \<open>drop k (v @ []) \<noteq> a @ ''=''\<close> by auto
  qed
  from replace_attr_text [OF assms(1), of v \<open>[]\<close>, OF _ this] assms(2)
  show ?thesis by simp
qed

lemma replace_attr_before:
  assumes \<open>quote_free a\<close> and \<open>quote_free t0\<close>
  shows \<open>replace_attr a (t0 @ (a @ ''='') @ dquote # r) = t0 @ replace_attr a ((a @ ''='') @ dquote # r)\<close>
proof -
  have \<open>\<forall>k<length t0. drop k (t0 @ (a @ ''='')) \<noteq> a @ ''=''\<close>
  proof (intro allI impI)
    fix k assume \<open>k < length t0\<close>
    then have \<open>length (drop k (t0 @ (a @ ''=''))) > length (a @ ''='')\<close> by simp
    then show \<open>drop k (t0 @ (a @ ''='')) \<noteq> a @ ''=''\<close> by force
  qed
  moreover have \<open>quote_free (t0 @ (a @ ''=''))\<close>
    using assms by (simp add: dquote_def)
  ultimately show ?thesis
    using replace_attr_text [OF assms(1), of t0 \<open>a @ ''=''\<close> r] by simp
qed

lemma replace_attr_at_quote:
  assumes \<open>a \<noteq> []\<close> and \<open>quote_free a\<close>
  shows \<open>replace_attr a (dquote # r) = dquote # replace_attr a r\<close>
proof -
  have \<open>match_attr a (dquote # r) = None\<close>
    using assms by (cases a) (auto simp: match_attr_def split: option.splits)
  then show ?thesis by simp
qed

lemma strip_prefix_append: \<open>strip_prefix p (p @ r) = Some r\<close>
  by (simp add: strip_prefix_Some_iff)

lemma match_attr_hit:
  assumes \<open>quote_free x\<close> and \<open>x \<noteq> []\<close>
  shows \<open>match_attr a ((a @ ''='') @ dquote # (CHR ''/'' # x) @ dquote # r) = Some (x, r)\<close>
proof -
  have \<open>(a @ ''='') @ dquote # (CHR ''/'' # x) @ dquote # r = (a @ ''="/'') @ (x @ dquote # r)\<close>
    by (simp add: dquote_def)
  then have \<open>strip_prefix (a @ ''="/'') ((a @ ''='') @ dquote # (CHR ''/'' # x) @ dquote # r)
      = Some (x @ dquote # r)\<close>
    by (simp only: strip_prefix_append)
  then show ?thesis
    using assms
    by (simp add: match_attr_def quote_free_takeWhile quote_free_dropWhile del: append_assoc)
qed

lemma match_attr_miss:
  assumes \<open>\<not> strippable v\<close>
  shows \<open>match_attr a ((a @ ''='') @ dquote # v @ dquote # r) = None\<close>
proof (cases \<open>strip_prefix (a @ ''="/'') ((a @ ''='') @ dquote # v @ dquote # r)\<close>)
  case None
  then show ?thesis by (simp add: match_attr_def)
next
  case (Some y)
  then have \<open>(a @ ''='') @ dquote # v @ dquote # r = (a @ ''="/'') @ y\<close>
    by (simp only: strip_prefix_Some_iff)
  then have \<open>v @ dquote # r = CHR ''/'' # y\<close>
    by (simp add: dquote_def)
  with assms have \<open>v = ''/'' \<and> y = dquote # r\<close>
    by (cases v rule: strippable.cases) (auto simp: dquote_def)
  then show ?thesis
    using Some by (simp add: match_attr_def)
qed

lemma replace_attr_hit:
  assumes \<open>match_attr a s = Some (x, r)\<close>
  shows \<open>replace_attr a s = a @ ''="'' @ x @ ''"'' @ replace_attr a r\<close>
proof (cases s)
  case Nil
  with assms show ?thesis
    by (simp add: match_attr_def strip_prefix_Some_iff split: option.splits)
next
  case (Cons c cs)
  with assms show ?thesis by simp
qed

lemma replace_attr_quote_free:
  assumes \<open>quote_free a\<close> and \<open>quote_free e\<close>
  shows \<open>replace_attr a e = e\<close>
  using assms(2)
proof (induction e)
  case Nil
  then show ?case by simp
next
  case (Cons c e)
  have \<open>match_attr a (c # e) = None\<close>
  proof (rule ccontr)
    assume \<open>match_attr a (c # e) \<noteq> None\<close>
    then obtain m where \<open>match_attr a (c # e) = Some m\<close> by blast
    then obtain y where \<open>c # e = a @ CHR ''='' # dquote # ''/'' @ y\<close>
      using match_attr_prefix [of a \<open>c # e\<close> m] by (auto simp: prefix_def)
    then have \<open>dquote \<in> set (c # e)\<close> by simp
    with Cons.prems show False by (auto simp: quote_free_def list_all_iff)
  qed
  with Cons show ?case by simp
qed

lemma replace_attr_match:
  assumes \<open>a \<noteq> []\<close> and \<open>quote_free a\<close> and \<open>quote_free v\<close> and \<open>\<not> suffix (a @ ''='') v\<close>
  shows \<open>replace_attr a ((a @ ''='') @ dquote # v @ dquote # r)
           = (a @ ''='') @ dquote # (if strippable v then tl v else v) @ dquote # replace_attr a r\<close>
proof (cases \<open>strippable v\<close>)
  case True
  then obtain x where v: \<open>v = CHR ''/'' # x\<close> and x: \<open>x \<noteq> []\<close>
    by (cases v rule: strippable.cases) auto
  from assms(3) v have \<open>quote_free x\<close> by simp
  from replace_attr_hit [OF match_attr_hit [OF this x, of a r]] True v
  show ?thesis by (simp add: dquote_def)
next
  case False
  obtain a1 a' where a: \<open>a = a1 # a'\<close> using assms(1) by (cases a) auto
  have \<open>replace_attr a ((a @ ''='') @ dquote # v @ dquote # r)
        = a1 # replace_attr a ((a' @ ''='') @ [] @ dquote # v @ dquote # r)\<close>
    using match_attr_miss [OF False, of a r] unfolding a by simp
  also have \<open>replace_attr a ((a' @ ''='') @ [] @ dquote # v @ dquote # r)
        = (a' @ ''='') @ replace_attr a ([] @ dquote # v @ dquote # r)\<close>
  proof (rule replace_attr_text [OF assms(2)])
    show \<open>quote_free ((a' @ ''='') @ [])\<close>
      using assms(2) a by (simp add: dquote_def)
    show \<open>\<forall>k<length (a' @ ''=''). drop k ((a' @ ''='') @ []) \<noteq> a @ ''=''\<close>
    proof (intro allI impI)
      fix k
      have less: \<open>length (drop k ((a' @ ''='') @ [])) < length (a @ ''='')\<close>
        unfolding a by simp
      show \<open>drop k ((a' @ ''='') @ []) \<noteq> a @ ''=''\<close>
      proof
        assume \<open>drop k ((a' @ ''='') @ []) = a @ ''=''\<close>
        then have \<open>length (drop k ((a' @ ''='') @ [])) = length (a @ ''='')\<close>
          by (rule arg_cong)
        with less show False by linarith
      qed
    qed
  qed
  also have \<open>replace_attr a ([] @ dquote # v @ dquote # r) = dquote # v @ dquote # replace_attr a r\<close>
    using replace_attr_at_quote [OF assms(1,2)] replace_attr_value [OF assms(2,3,4)] by simp
  finally show ?thesis using False unfolding a by simp
qed

lemma replace_attr_pair:
  assumes \<open>a \<noteq> []\<close> and \<open>quote_free a\<close> and \<open>quote_free t\<close> and \<open>quote_free v\<close>
    and \<open>\<not> suffix (a @ ''='') v\<close>
  shows \<open>replace_attr a (t @ dquote # v @ dquote # r)
           = t @ dquote # (if suffix (a @ ''='') t \<and> strippable v then tl v else v)
               @ dquote # replace_attr a r\<close>
proof (cases \<open>suffix (a @ ''='') t\<close>)
  case True
  then obtain t0 where t: \<open>t = t0 @ (a @ ''='')\<close> by (auto simp: suffix_def)
  with assms(3) have \<open>quote_free t0\<close> by simp
  from replace_attr_before [OF assms(2) this, of \<open>v @ dquote # r\<close>]
    replace_attr_match [OF assms(1,2,4,5), of r] True
  show ?thesis unfolding t by simp
next
  case False
  from replace_attr_value [OF assms(2,3) False, of \<open>v @ dquote # r\<close>]
    replace_attr_at_quote [OF assms(1,2)] replace_attr_value [OF assms(2,4,5), of r] False
  show ?thesis by simp
qed

lemma expo_pattern_not_Nil: \<open>expo_pattern a \<noteq> []\<close>
  by (simp add: expo_pattern_def)

lemma replace_literal_miss:
  \<open>strip_prefix (expo_pattern a) (c # cs) = None \<Longrightarrow>
     replace_literal (expo_pattern a) rep (c # cs) = c # replace_literal (expo_pattern a) rep cs\<close>
  by (simp add: expo_pattern_not_Nil)

lemma replace_literal_hit:
  assumes \<open>strip_prefix (expo_pattern a) s = Some r\<close>
  shows \<open>replace_literal (expo_pattern a) rep s = rep @ replace_literal (expo_pattern a) rep r\<close>
proof (cases s)
  case Nil
  with assms show ?thesis by (simp add: strip_prefix_Some_iff expo_pattern_def)
next
  case (Cons c cs)
  with assms show ?thesis by (simp add: expo_pattern_not_Nil)
qed

lemma expo_pattern_prefix:
  \<open>strip_prefix (expo_pattern a) s = Some y \<Longrightarrow> prefix (a @ CHR ''='' # dquote # ''/_expo/'') s\<close>
  by (simp add: strip_prefix_Some_iff expo_pattern_def dquote_def)

lemma replace_literal_text:
  assumes \<open>quote_free a\<close> and \<open>quote_free (u @ u1)\<close>
    and \<open>\<forall>k<length u. drop k (u @ u1) \<noteq> a @ ''=''\<close>
  shows \<open>replace_literal (expo_pattern a) rep (u @ u1 @ dquote # r)
           = u @ replace_literal (expo_pattern a) rep (u1 @ dquote # r)\<close>
  using assms(2,3)
proof (induction u)
  case Nil
  then show ?case by simp
next
  case (Cons c u)
  have \<open>strip_prefix (expo_pattern a) ((c # u @ u1) @ dquote # r) = None\<close>
  proof (rule ccontr)
    assume \<open>strip_prefix (expo_pattern a) ((c # u @ u1) @ dquote # r) \<noteq> None\<close>
    then obtain y where \<open>strip_prefix (expo_pattern a) ((c # u @ u1) @ dquote # r) = Some y\<close>
      by blast
    then have \<open>c # u @ u1 = a @ ''=''\<close>
      using no_start [OF assms(1), of \<open>c # u @ u1\<close>] Cons.prems(1) expo_pattern_prefix by fastforce
    with Cons.prems(2) show False by force
  qed
  then have \<open>replace_literal (expo_pattern a) rep ((c # u) @ u1 @ dquote # r)
      = c # replace_literal (expo_pattern a) rep (u @ u1 @ dquote # r)\<close>
    using replace_literal_miss [of a c \<open>u @ u1 @ dquote # r\<close> rep] by simp
  moreover have \<open>\<forall>k<length u. drop k (u @ u1) \<noteq> a @ ''=''\<close>
  proof (intro allI impI)
    fix k assume \<open>k < length u\<close>
    then show \<open>drop k (u @ u1) \<noteq> a @ ''=''\<close>
      using Cons.prems(2) [rule_format, of \<open>Suc k\<close>] by simp
  qed
  ultimately show ?case
    using Cons.IH Cons.prems(1) by simp
qed

lemma replace_literal_value:
  assumes \<open>quote_free a\<close> and \<open>quote_free v\<close> and \<open>\<not> suffix (a @ ''='') v\<close>
  shows \<open>replace_literal (expo_pattern a) rep (v @ dquote # r)
           = v @ replace_literal (expo_pattern a) rep (dquote # r)\<close>
proof -
  have \<open>\<forall>k<length v. drop k (v @ []) \<noteq> a @ ''=''\<close>
  proof (intro allI impI)
    fix k
    have \<open>suffix (drop k v) v\<close> by (rule suffix_drop)
    with assms(3) show \<open>drop k (v @ []) \<noteq> a @ ''=''\<close> by auto
  qed
  from replace_literal_text [OF assms(1), of v \<open>[]\<close>, OF _ this] assms(2)
  show ?thesis by simp
qed

lemma replace_literal_before:
  assumes \<open>quote_free a\<close> and \<open>quote_free t0\<close>
  shows \<open>replace_literal (expo_pattern a) rep (t0 @ (a @ ''='') @ dquote # r)
           = t0 @ replace_literal (expo_pattern a) rep ((a @ ''='') @ dquote # r)\<close>
proof -
  have \<open>\<forall>k<length t0. drop k (t0 @ (a @ ''='')) \<noteq> a @ ''=''\<close>
  proof (intro allI impI)
    fix k assume \<open>k < length t0\<close>
    then have \<open>length (drop k (t0 @ (a @ ''=''))) > length (a @ ''='')\<close> by simp
    then show \<open>drop k (t0 @ (a @ ''='')) \<noteq> a @ ''=''\<close> by force
  qed
  moreover have \<open>quote_free (t0 @ (a @ ''=''))\<close>
    using assms by (simp add: dquote_def)
  ultimately show ?thesis
    using replace_literal_text [OF assms(1), of t0 \<open>a @ ''=''\<close> rep r] by simp
qed

lemma replace_literal_at_quote:
  assumes \<open>a \<noteq> []\<close> and \<open>quote_free a\<close>
  shows \<open>replace_literal (expo_pattern a) rep (dquote # r)
           = dquote # replace_literal (expo_pattern a) rep r\<close>
proof -
  have \<open>strip_prefix (expo_pattern a) (dquote # r) = None\<close>
    using assms by (cases a) (auto simp: expo_pattern_def)
  then show ?thesis by (rule replace_literal_miss)
qed

lemma replace_literal_quote_free:
  assumes \<open>quote_free e\<close>
  shows \<open>replace_literal (expo_pattern a) rep e = e\<close>
  using assms
proof (induction e)
  case Nil
  then show ?case by simp
next
  case (Cons c e)
  have \<open>strip_prefix (expo_pattern a) (c # e) = None\<close>
  proof (rule ccontr)
    assume \<open>strip_prefix (expo_pattern a) (c # e) \<noteq> None\<close>
    then obtain m where \<open>strip_prefix (expo_pattern a) (c # e) = Some m\<close> by blast
    then obtain y where \<open>c # e = a @ CHR ''='' # dquote # ''/_expo/'' @ y\<close>
      using expo_pattern_prefix [of a \<open>c # e\<close> m] by (auto simp: prefix_def)
    then have \<open>dquote \<in> set (c # e)\<close> by simp
    with Cons.prems show False by (auto simp: quote_free_def list_all_iff)
  qed
  with Cons show ?case by (simp add: replace_literal_miss)
qed

lemma quote_free_prefix:
  assumes \<open>quote_free p\<close> and \<open>v @ dquote # r = p @ y\<close>
  shows \<open>prefix p v\<close>
proof -
  from assms(2) obtain us where
    \<open>(v = p @ us \<and> us @ dquote # r = y) \<or> (v @ us = p \<and> dquote # r = us @ y)\<close>
    by (auto simp: append_eq_append_conv2)
  then show ?thesis
  proof
    assume \<open>v = p @ us \<and> us @ dquote # r = y\<close>
    then show ?thesis by simp
  next
    assume h: \<open>v @ us = p \<and> dquote # r = us @ y\<close>
    show ?thesis
    proof (cases us)
      case Nil
      with h show ?thesis by simp
    next
      case (Cons c us')
      with h have \<open>dquote \<in> set p\<close> by auto
      with assms(1) show ?thesis by (auto simp: quote_free_def list_all_iff)
    qed
  qed
qed

lemma replace_literal_match:
  assumes \<open>a \<noteq> []\<close> and \<open>quote_free a\<close> and \<open>quote_free v\<close> and \<open>\<not> suffix (a @ ''='') v\<close>
  shows \<open>replace_literal (expo_pattern a) (expo_replacement a) ((a @ ''='') @ dquote # v @ dquote # r)
           = (a @ ''='') @ dquote # (if prefix ''/_expo/'' v then tl v else v)
               @ dquote # replace_literal (expo_pattern a) (expo_replacement a) r\<close>
proof (cases \<open>prefix ''/_expo/'' v\<close>)
  case True
  then obtain y where v: \<open>v = ''/_expo/'' @ y\<close> by (auto simp: prefix_def)
  have y: \<open>quote_free y\<close> using assms(3) v by simp
  have ny: \<open>\<not> suffix (a @ ''='') y\<close>
    using assms(4) v by (auto simp: suffix_def)
  have \<open>(a @ ''='') @ dquote # v @ dquote # r = expo_pattern a @ (y @ dquote # r)\<close>
    by (simp add: v expo_pattern_def dquote_def)
  then have \<open>strip_prefix (expo_pattern a) ((a @ ''='') @ dquote # v @ dquote # r)
      = Some (y @ dquote # r)\<close>
    by (simp only: strip_prefix_append)
  from replace_literal_hit [OF this, of \<open>expo_replacement a\<close>]
    replace_literal_value [OF assms(2) y ny, of \<open>expo_replacement a\<close> r]
    replace_literal_at_quote [OF assms(1,2), of \<open>expo_replacement a\<close> r]
  show ?thesis
    using True by (simp add: v expo_replacement_def dquote_def)
next
  case False
  obtain a1 a' where a: \<open>a = a1 # a'\<close> using assms(1) by (cases a) auto
  have \<open>strip_prefix (expo_pattern a) ((a @ ''='') @ dquote # v @ dquote # r) = None\<close>
  proof (rule ccontr)
    assume \<open>strip_prefix (expo_pattern a) ((a @ ''='') @ dquote # v @ dquote # r) \<noteq> None\<close>
    then obtain y where \<open>(a @ ''='') @ dquote # v @ dquote # r = expo_pattern a @ y\<close>
      by (auto simp: strip_prefix_Some_iff)
    then have \<open>v @ dquote # r = ''/_expo/'' @ y\<close>
      by (simp add: expo_pattern_def dquote_def)
    moreover have \<open>quote_free ''/_expo/''\<close> by (simp add: dquote_def)
    ultimately have \<open>prefix ''/_expo/'' v\<close> by (rule quote_free_prefix [rotated])
    with False show False by simp
  qed
  then have \<open>replace_literal (expo_pattern a) (expo_replacement a) ((a @ ''='') @ dquote # v @ dquote # r)
        = a1 # replace_literal (expo_pattern a) (expo_replacement a) ((a' @ ''='') @ [] @ dquote # v @ dquote # r)\<close>
    using replace_literal_miss [of a a1 \<open>(a' @ ''='') @ dquote # v @ dquote # r\<close>] unfolding a by simp
  also have \<open>replace_literal (expo_pattern a) (expo_replacement a) ((a' @ ''='') @ [] @ dquote # v @ dquote # r)
        = (a' @ ''='') @ replace_literal (expo_pattern a) (expo_replacement a) ([] @ dquote # v @ dquote # r)\<close>
  proof (rule replace_literal_text [OF assms(2)])
    show \<open>quote_free ((a' @ ''='') @ [])\<close>
      using assms(2) a by (simp add: dquote_def)
    show \<open>\<forall>k<length (a' @ ''=''). drop k ((a' @ ''='') @ []) \<noteq> a @ ''=''\<close>
    proof (intro allI impI)
      fix k
      have less: \<open>length (drop k ((a' @ ''='') @ [])) < length (a @ ''='')\<close>
        unfolding a by simp
      show \<open>drop k ((a' @ ''='') @ []) \<noteq> a @ ''=''\<close>
      proof
        assume \<open>drop k ((a' @ ''='') @ []) = a @ ''=''\<close>
        then have \<open>length (drop k ((a' @ ''='') @ [])) = length (a @ ''='')\<close>
          by (rule arg_cong)
        with less show False by linarith
      qed
    qed
  qed
  also have \<open>replace_literal (expo_pattern a) (expo_replacement a) ([] @ dquote # v @ dquote # r)
      = dquote # v @ dquote # replace_literal (expo_pattern a) (expo_replacement a) r\<close>
    using replace_literal_at_quote [OF assms(1,2)] replace_literal_value [OF assms(2,3,4)] by simp
  finally show ?thesis using False unfolding a by simp
qed

lemma replace_literal_pair:
  assumes \<open>a \<noteq> []\<close> and \<open>quote_free a\<close> and \<open>quote_free t\<close> and \<open>quote_free v\<close>
    and \<open>\<not> suffix (a @ ''='') v\<close>
  shows \<open>replace_literal (expo_pattern a) (expo_replacement a) (t @ dquote # v @ dquote # r)
           = t @ dquote # (if suffix (a @ ''='') t \<and> prefix ''/_expo/'' v then tl v else v)
               @ dquote # replace_literal (expo_pattern a) (expo_replacement a) r\<close>
proof (cases \<open>suffix (a @ ''='') t\<close>)
  case True
  then obtain t0 where t: \<open>t = t0 @ (a @ ''='')\<close> by (auto simp: suffix_def)
  with assms(3) have \<open>quote_free t0\<close> by simp
  from replace_literal_before [OF assms(2) this, of \<open>expo_replacement a\<close> \<open>v @ dquote # r\<close>]
    replace_literal_match [OF assms(1,2,4,5), of r] True
  show ?thesis unfolding t by simp
next
  case False
  from replace_literal_value [OF assms(2,3) False, of \<open>expo_replacement a\<close> \<open>v @ dquote # r\<close>]
    replace_literal_at_quote [OF assms(1,2)]
    replace_literal_value [OF assms(2,4,5), of \<open>expo_replacement a\<close> r] False
  show ?thesis by simp
qed

lemma replace_attr_render:
  assumes \<open>a \<noteq> []\<close> and \<open>quote_free a\<close> and \<open>quote_free e\<close>
    and \<open>list_all (\<lambda>p. quote_free (fst p) \<and> quote_free (snd p) \<and> \<not> suffix (a @ ''='') (snd p)) d\<close>
  shows \<open>replace_attr a (render d e) = render (map (strip_slash a) d) e\<close>
  using assms(4)
proof (induction d)
  case Nil
  show ?case using replace_attr_quote_free [OF assms(2,3)] by simp
next
  case (Cons p d)
  obtain t v where p: \<open>p = (t, v)\<close> by (cases p)
  from Cons.prems p have \<open>quote_free t\<close> \<open>quote_free v\<close> \<open>\<not> suffix (a @ ''='') v\<close> by simp_all
  from replace_attr_pair [OF assms(1,2) this, of \<open>render d e\<close>] Cons
  show ?case by (simp add: p strip_slash_def)
qed

lemma replace_literal_render:
  assumes \<open>a \<noteq> []\<close> and \<open>quote_free a\<close> and \<open>quote_free e\<close>
    and \<open>list_all (\<lambda>p. quote_free (fst p) \<and> quote_free (snd p) \<and> \<not> suffix (a @ ''='') (snd p)) d\<close>
  shows \<open>replace_literal (expo_pattern a) (expo_replacement a) (render d e)
           = render (map (strip_expo a) d) e\<close>
  using assms(4)
proof (induction d)
  case Nil
  show ?case using replace_literal_quote_free [OF assms(3)] by simp
next
  case (Cons p d)
  obtain t v where p: \<open>p = (t, v)\<close> by (cases p)
  from Cons.prems p have \<open>quote_free t\<close> \<open>quote_free v\<close> \<open>\<not> suffix (a @ ''='') v\<close> by simp_all
  from replace_literal_pair [OF assms(1,2) this, of \<open>render d e\<close>] Cons
  show ?case by (simp add: p strip_expo_def)
qed

lemma quote_free_tl: \<open>quote_free v \<Longrightarrow> quote_free (tl v)\<close>
  by (cases v) simp_all

lemma suffix_tl_D: \<open>suffix x (tl v) \<Longrightarrow> suffix x v\<close>
  using suffix_tl [of v] suffix_order.trans by blast

lemma paired_value_tl: \<open>paired_value (t, v) \<Longrightarrow> paired_value (t, tl v)\<close>
  by (auto simp: paired_value_def quote_free_tl dest: suffix_tl_D)

lemma paired_value_strip_expo: \<open>paired_value p \<Longrightarrow> paired_value (strip_expo a p)\<close>
  using paired_value_tl [of \<open>fst p\<close> \<open>snd p\<close>] by (simp add: strip_expo_def)

lemma paired_value_strip_slash: \<open>paired_value p \<Longrightarrow> paired_value (strip_slash a p)\<close>
  using paired_value_tl [of \<open>fst p\<close> \<open>snd p\<close>] by (simp add: strip_slash_def)

lemma src_not_href: \<open>suffix ''src='' t \<Longrightarrow> \<not> suffix ''href='' t\<close>
proof
  assume \<open>suffix ''src='' t\<close> and \<open>suffix ''href='' t\<close>
  then have \<open>suffix ''src='' ''href='' \<or> suffix ''href='' ''src=''\<close>
    by (rule suffix_same_cases)
  then show False by (simp add: suffix_to_prefix)
qed

lemma expo_value_strippable: \<open>prefix ''/_expo/'' v \<Longrightarrow> strippable v \<and> \<not> strippable (tl v)\<close>
  by (auto simp: prefix_def)

lemma four_passes_on_value:
  \<open>strip_slash ''href'' (strip_slash ''src'' (strip_expo ''href'' (strip_expo ''src'' p))) = relative p\<close>
  using src_not_href [of \<open>fst p\<close>] expo_value_strippable [of \<open>snd p\<close>]
  by (auto simp: strip_slash_def strip_expo_def relative_def)

lemma two_passes_on_value:
  \<open>strip_slash ''href'' (strip_slash ''src'' p) = relative p\<close>
  using src_not_href [of \<open>fst p\<close>]
  by (auto simp: strip_slash_def relative_def)

lemma paired_for:
  assumes \<open>list_all paired_value d\<close>
  shows \<open>list_all (\<lambda>p. quote_free (fst p) \<and> quote_free (snd p) \<and> \<not> suffix (''src'' @ ''='') (snd p)) d\<close>
    and \<open>list_all (\<lambda>p. quote_free (fst p) \<and> quote_free (snd p) \<and> \<not> suffix (''href'' @ ''='') (snd p)) d\<close>
  using assms by (auto simp: list_all_iff paired_value_def)

lemma attr_names: \<open>''src'' \<noteq> []\<close> \<open>''href'' \<noteq> []\<close> \<open>quote_free ''src''\<close> \<open>quote_free ''href''\<close>
  by (simp_all add: dquote_def)

lemma rewrite_generic_render:
  assumes \<open>paired d e\<close>
  shows \<open>rewrite_generic (render d e) = render (map relative d) e\<close>
proof -
  from assms have d: \<open>list_all paired_value d\<close> and e: \<open>quote_free e\<close>
    by (simp_all add: paired_def)
  have d1: \<open>list_all paired_value (map (strip_slash ''src'') d)\<close>
    using d by (simp add: list_all_iff paired_value_strip_slash)
  have \<open>replace_attr ''src'' (render d e) = render (map (strip_slash ''src'') d) e\<close>
    by (rule replace_attr_render [OF attr_names(1,3) e paired_for(1) [OF d]])
  moreover have \<open>replace_attr ''href'' (render (map (strip_slash ''src'') d) e)
      = render (map (strip_slash ''href'') (map (strip_slash ''src'') d)) e\<close>
    by (rule replace_attr_render [OF attr_names(2,4) e paired_for(2) [OF d1]])
  ultimately show ?thesis
    by (simp add: rewrite_generic_def two_passes_on_value comp_def)
qed

lemma rewrite_expo_render:
  assumes \<open>paired d e\<close>
  shows \<open>rewrite_expo (render d e) = render (map (strip_expo ''href'') (map (strip_expo ''src'') d)) e\<close>
proof -
  from assms have d: \<open>list_all paired_value d\<close> and e: \<open>quote_free e\<close>
    by (simp_all add: paired_def)
  have d1: \<open>list_all paired_value (map (strip_expo ''src'') d)\<close>
    using d by (simp add: list_all_iff paired_value_strip_expo)
  have \<open>replace_literal (expo_pattern ''src'') (expo_replacement ''src'') (render d e)
      = render (map (strip_expo ''src'') d) e\<close>
    by (rule replace_literal_render [OF attr_names(1,3) e paired_for(1) [OF d]])
  moreover have \<open>replace_literal (expo_pattern ''href'') (expo_replacement ''href'')
        (render (map (strip_expo ''src'') d) e)
      = render (map (strip_expo ''href'') (map (strip_expo ''src'') d)) e\<close>
    by (rule replace_literal_render [OF attr_names(2,4) e paired_for(2) [OF d1]])
  ultimately show ?thesis
    by (simp add: rewrite_expo_def expo_pattern_def expo_replacement_def)
qed

lemma rewrite_paths_render:
  assumes \<open>paired d e\<close>
  shows \<open>rewrite_paths (render d e) = render (map relative d) e\<close>
proof -
  from assms have d: \<open>list_all paired_value d\<close> and e: \<open>quote_free e\<close>
    by (simp_all add: paired_def)
  let ?d2 = \<open>map (strip_expo ''href'') (map (strip_expo ''src'') d)\<close>
  have d2: \<open>list_all paired_value ?d2\<close>
    using d by (simp add: list_all_iff paired_value_strip_expo)
  have \<open>paired ?d2 e\<close> using d2 e by (simp add: paired_def)
  then have g: \<open>rewrite_generic (render ?d2 e) = render (map relative ?d2) e\<close>
    by (rule rewrite_generic_render)
  have m: \<open>map relative ?d2 = map relative d\<close>
    using four_passes_on_value two_passes_on_value by (simp add: comp_def)
  have \<open>rewrite_paths (render d e) = rewrite_generic (render ?d2 e)\<close>
    by (simp only: rewrite_paths_def rewrite_expo_render [OF assms])
  also have \<open>\<dots> = render (map relative d) e\<close>
    by (simp only: g m)
  finally show ?thesis .
qed

subsection \<open>Scanning any content\<close>

text \<open>
  The prefix patterns \<^verbatim>\<open>src="/_expo/\<close> and \<^verbatim>\<open>href="/_expo/\<close> cannot overlap
  themselves or each other, so the prefix passes rewrite every occurrence, in any
  content. What they emit, \<^verbatim>\<open>src="_expo/\<close>, then stands through the generic passes:
  its double quote is followed by no slash, so it opens no match; at most it closes one
  that began earlier, and the scan resumes right after it.
\<close>

lemma replace_literal_Nil_pattern: \<open>replace_literal [] rep s = s\<close>
  by (cases s) simp_all






















subsection \<open>Following a run\<close>

text \<open>
  A script ends with exit status 0 only when every step went on to the next; the
  steps after the descriptor step write the icons, call the packaging tool and print,
  so the descriptor is still there at the end.
\<close>

lemma utf8_decode_ill_formed:
  \<open>utf8_decode [CHR ''a'', CHR 0xFF, CHR ''b''] = CHR ''a'' # replacement_character @ ''b''\<close>
  \<open>utf8_decode [CHR 0xC3, CHR 0xA9] = [CHR 0xC3, CHR 0xA9]\<close>
  \<open>utf8_decode [CHR 0xE2, CHR 0x82, CHR ''a''] = replacement_character @ ''a''\<close>
  \<open>utf8_decode [CHR 0xC0, CHR 0xAF] = replacement_character @ replacement_character\<close>
  by (simp_all add: utf8_decode_def utf8_first_def replacement_character_def)

lemma and_then_Next_iff:
  \<open>and_then r f = Next w' \<longleftrightarrow> (\<exists>w1. r = Next w1 \<and> f w1 = Next w')\<close>
  by (cases r) simp_all

lemma and_then_Exit_iff:
  \<open>and_then r f = Exit n w' \<longleftrightarrow> r = Exit n w' \<or> (\<exists>w1. r = Next w1 \<and> f w1 = Exit n w')\<close>
  by (cases r) simp_all

lemma copyDistFiles_Exit: \<open>copyDistFiles label w = Exit n w' \<Longrightarrow> n = 1\<close>
  by (auto simp: copyDistFiles_def Let_def split: option.splits result.splits)

lemma fixIndexHtmlPaths_Exit: \<open>fixIndexHtmlPaths w \<noteq> Exit n w'\<close>
  by (auto simp: fixIndexHtmlPaths_def split: option.splits node.splits result.splits)

lemma createConfigXml_Exit: \<open>createConfigXml cfg w \<noteq> Exit n w'\<close>
  by (auto simp: createConfigXml_def split: option.splits result.splits)

lemma createAppInfo_Exit: \<open>createAppInfo cfg w \<noteq> Exit n w'\<close>
  by (auto simp: createAppInfo_def split: option.splits result.splits)

lemma tizen_handleIcons_Exit: \<open>tizen_handleIcons cfg w \<noteq> Exit n w'\<close>
  by (auto simp: tizen_handleIcons_def split: option.splits result.splits)

lemma copy_asset_Exit: \<open>copy_asset a b c d w \<noteq> Exit n w'\<close>
  by (auto simp: copy_asset_def split: option.splits result.splits)

lemma webos_handleIcons_Exit: \<open>webos_handleIcons cfg w \<noteq> Exit n w'\<close>
  by (auto simp: webos_handleIcons_def and_then_Exit_iff copy_asset_Exit)

lemma createWGT_Exit: \<open>createWGT exec cfg w \<noteq> Exit n w'\<close>
  by (auto simp: createWGT_def Let_def split: prod.splits bool.splits)

lemma createIPK_Exit: \<open>createIPK exec w \<noteq> Exit n w'\<close>
  by (auto simp: createIPK_def Let_def split: prod.splits bool.splits)

lemma tizen_displayInstructions_Exit: \<open>tizen_displayInstructions cfg w \<noteq> Exit n w'\<close>
  by (simp add: tizen_displayInstructions_def)

lemma webos_displayInstructions_Exit: \<open>webos_displayInstructions w \<noteq> Exit n w'\<close>
  by (simp add: webos_displayInstructions_def)

lemma tizen_steps_Exit: \<open>tizen_steps exec cfg w = Exit n w' \<Longrightarrow> n = 1\<close>
  unfolding tizen_steps_def tizen_descriptor_steps_def and_then_Exit_iff
  by (auto simp: fixIndexHtmlPaths_Exit createConfigXml_Exit tizen_handleIcons_Exit
        createWGT_Exit tizen_displayInstructions_Exit dest: copyDistFiles_Exit)

lemma webos_steps_Exit: \<open>webos_steps exec cfg w = Exit n w' \<Longrightarrow> n = 1\<close>
  unfolding webos_steps_def webos_descriptor_steps_def and_then_Exit_iff
  by (auto simp: fixIndexHtmlPaths_Exit createAppInfo_Exit webos_handleIcons_Exit
        createIPK_Exit webos_displayInstructions_Exit dest: copyDistFiles_Exit)

lemma tizen_main_success:
  assumes \<open>fst (tizen_main exec cfg w) = 0\<close>
  shows \<open>tizen_steps exec cfg (say Log (''Starting Tizen export process...'' @ newline) w)
           = Next (snd (tizen_main exec cfg w))\<close>
proof (cases \<open>tizen_steps exec cfg (say Log (''Starting Tizen export process...'' @ newline) w)\<close>)
  case (Next w')
  then show ?thesis unfolding tizen_main_def by simp
next
  case (Exit n w')
  with assms tizen_steps_Exit [OF Exit] show ?thesis unfolding tizen_main_def by simp
next
  case (Thrown e w')
  with assms show ?thesis unfolding tizen_main_def by simp
qed

lemma webos_main_success:
  assumes \<open>fst (webos_main exec cfg w) = 0\<close>
  shows \<open>webos_steps exec cfg (say Log (''Starting webOS export process...'' @ newline) w)
           = Next (snd (webos_main exec cfg w))\<close>
proof (cases \<open>webos_steps exec cfg (say Log (''Starting webOS export process...'' @ newline) w)\<close>)
  case (Next w')
  then show ?thesis unfolding webos_main_def by simp
next
  case (Exit n w')
  with assms webos_steps_Exit [OF Exit] show ?thesis unfolding webos_main_def by simp
next
  case (Thrown e w')
  with assms show ?thesis unfolding webos_main_def by simp
qed

lemma write_file_other:
  \<open>write_file k c st = Ok st' \<Longrightarrow> k \<noteq> f \<Longrightarrow> entry st' f = entry st f\<close>
  by (cases \<open>(k, c, st)\<close> rule: write_file.cases)
     (auto simp: AList.update_conv' split: option.splits node.splits)

lemma tizen_handleIcons_keeps:
  \<open>tizen_handleIcons cfg w = Next w' \<Longrightarrow> icon cfg \<noteq> f \<Longrightarrow>
     entry (staging w') f = entry (staging w) f\<close>
  by (auto simp: tizen_handleIcons_def split: option.splits result.splits dest: write_file_other)

lemma copy_asset_keeps:
  \<open>copy_asset a b c d w = Next w' \<Longrightarrow> b \<noteq> f \<Longrightarrow> entry (staging w') f = entry (staging w) f\<close>
  by (auto simp: copy_asset_def split: option.splits result.splits dest: write_file_other)

lemma webos_handleIcons_keeps:
  assumes \<open>webos_handleIcons cfg w = Next w'\<close>
    and \<open>wicon cfg \<noteq> f\<close> and \<open>largeIcon cfg \<noteq> f\<close> and \<open>bgImage cfg \<noteq> f\<close>
  shows \<open>entry (staging w') f = entry (staging w) f\<close>
proof -
  from assms(1) obtain w1 w2 where
    a: \<open>copy_asset ''icon-80.png'' (wicon cfg) (check_mark @ '' Copied 80x80 icon'')
          [warning_sign @ '' No 80x80 icon found. You need to add:'',
           ''  - assets/images/icon-80.png (80x80 PNG)''] w = Next w1\<close>
    and b: \<open>copy_asset ''icon-130.png'' (largeIcon cfg) (check_mark @ '' Copied 130x130 icon'')
          [warning_sign @ '' No 130x130 icon found. You need to add:'',
           ''  - assets/images/icon-130.png (130x130 PNG)''] w1 = Next w2\<close>
    and c: \<open>copy_asset ''splash-1920x1080.png'' (bgImage cfg) (check_mark @ '' Copied splash image'')
          [warning_sign @ '' No splash image found. You may want to add:'',
           ''  - assets/images/splash-1920x1080.png (1920x1080 PNG)''] w2 = Next w'\<close>
    unfolding webos_handleIcons_def and_then_Next_iff by blast
  show ?thesis
    unfolding copy_asset_keeps [OF c assms(4)] copy_asset_keeps [OF b assms(3)]
      copy_asset_keeps [OF a assms(2)] ..
qed

lemma createWGT_keeps:
  assumes \<open>createWGT exec cfg w = Next w'\<close> and \<open>keeps_file exec f\<close>
  shows \<open>entry (staging w') f = entry (staging w) f\<close>
proof -
  have k: \<open>entry (staging (snd (exec c v))) f = entry (staging v) f\<close> for c v
    using assms(2) by (simp add: keeps_file_def)
  obtain ok1 w1 where e1: \<open>exec ''which tizen'' w = (ok1, w1)\<close> by (cases \<open>exec ''which tizen'' w\<close>)
  have s1: \<open>entry (staging w1) f = entry (staging w) f\<close> using k [of \<open>''which tizen''\<close> w] e1 by simp
  show ?thesis
  proof (cases ok1)
    case False
    with assms(1) e1 s1 show ?thesis
      by (auto simp: createWGT_def tizen_cli_warning_def)
  next
    case True
    let ?w2 = \<open>say Log (newline @ package_sign @ '' Creating WGT package...'') w1\<close>
    obtain ok2 w3 where e2: \<open>exec (tizen_package_command cfg ?w2) ?w2 = (ok2, w3)\<close>
      by (cases \<open>exec (tizen_package_command cfg ?w2) ?w2\<close>)
    have s3: \<open>entry (staging w3) f = entry (staging w1) f\<close>
      using k [of \<open>tizen_package_command cfg ?w2\<close> ?w2] e2 by simp
    from assms(1) e1 True e2 s1 s3 show ?thesis
      by (cases ok2) (auto simp: createWGT_def Let_def tizen_cli_warning_def)
  qed
qed

lemma createIPK_keeps:
  assumes \<open>createIPK exec w = Next w'\<close> and \<open>keeps_file exec f\<close>
  shows \<open>entry (staging w') f = entry (staging w) f\<close>
proof -
  have k: \<open>entry (staging (snd (exec c v))) f = entry (staging v) f\<close> for c v
    using assms(2) by (simp add: keeps_file_def)
  obtain ok1 w1 where e1: \<open>exec ''which ares-package'' w = (ok1, w1)\<close>
    by (cases \<open>exec ''which ares-package'' w\<close>)
  have s1: \<open>entry (staging w1) f = entry (staging w) f\<close>
    using k [of \<open>''which ares-package''\<close> w] e1 by simp
  show ?thesis
  proof (cases ok1)
    case False
    with assms(1) e1 s1 show ?thesis
      by (auto simp: createIPK_def webos_cli_warning_def)
  next
    case True
    let ?w2 = \<open>say Log (newline @ package_sign @ '' Creating IPK package...'') w1\<close>
    obtain ok2 w3 where e2: \<open>exec (webos_package_command ?w2) ?w2 = (ok2, w3)\<close>
      by (cases \<open>exec (webos_package_command ?w2) ?w2\<close>)
    have s3: \<open>entry (staging w3) f = entry (staging w1) f\<close>
      using k [of \<open>webos_package_command ?w2\<close> ?w2] e2 by simp
    from assms(1) e1 True e2 s1 s3 show ?thesis
      by (cases ok2) (auto simp: createIPK_def Let_def webos_cli_warning_def)
  qed
qed

lemma tizen_steps_Next:
  \<open>tizen_steps exec cfg w = Next w' \<Longrightarrow>
     \<exists>w2 w3 w4 w5. createConfigXml cfg w2 = Next w3 \<and> tizen_handleIcons cfg w3 = Next w4 \<and>
       createWGT exec cfg w4 = Next w5 \<and> tizen_displayInstructions cfg w5 = Next w'\<close>
  unfolding tizen_steps_def tizen_descriptor_steps_def and_then_Next_iff by blast

lemma webos_steps_Next:
  \<open>webos_steps exec cfg w = Next w' \<Longrightarrow>
     \<exists>w2 w3 w4 w5. createAppInfo cfg w2 = Next w3 \<and> webos_handleIcons cfg w3 = Next w4 \<and>
       createIPK exec w4 = Next w5 \<and> webos_displayInstructions w5 = Next w'\<close>
  unfolding webos_steps_def webos_descriptor_steps_def and_then_Next_iff by blast

lemma tizen_run_descriptor:
  assumes \<open>fst (tizen_main exec cfg w) = 0\<close> and \<open>keeps_file exec ''config.xml''\<close>
    and \<open>icon cfg \<noteq> ''config.xml''\<close>
  shows \<open>\<exists>text. configXml cfg = Some text \<and>
           entry (staging (snd (tizen_main exec cfg w))) ''config.xml'' = Some (File text)\<close>
proof -
  from tizen_main_success [OF assms(1)] obtain w2 w3 w4 w5 where
    c: \<open>createConfigXml cfg w2 = Next w3\<close>
    and i: \<open>tizen_handleIcons cfg w3 = Next w4\<close>
    and p: \<open>createWGT exec cfg w4 = Next w5\<close>
    and d: \<open>tizen_displayInstructions cfg w5 = Next (snd (tizen_main exec cfg w))\<close>
    using tizen_steps_Next by blast
  from createConfigXml_writes [OF c] obtain xml where
    t: \<open>configXml cfg = Some xml\<close> \<open>entry (staging w3) ''config.xml'' = Some (File xml)\<close>
    by blast
  have \<open>entry (staging (snd (tizen_main exec cfg w))) ''config.xml'' = entry (staging w5) ''config.xml''\<close>
    using tizen_report [OF d] by simp
  also have \<open>\<dots> = entry (staging w4) ''config.xml''\<close>
    by (rule createWGT_keeps [OF p assms(2)])
  also have \<open>\<dots> = entry (staging w3) ''config.xml''\<close>
    by (rule tizen_handleIcons_keeps [OF i assms(3)])
  finally show ?thesis using t by simp
qed

lemma webos_run_descriptor:
  assumes \<open>fst (webos_main exec cfg w) = 0\<close> and \<open>keeps_file exec ''appinfo.json''\<close>
    and \<open>wicon cfg \<noteq> ''appinfo.json''\<close> and \<open>largeIcon cfg \<noteq> ''appinfo.json''\<close>
    and \<open>bgImage cfg \<noteq> ''appinfo.json''\<close>
  shows \<open>entry (staging (snd (webos_main exec cfg w))) ''appinfo.json''
           = Some (File (json_stringify [] (appInfo cfg)))\<close>
proof -
  from webos_main_success [OF assms(1)] obtain w2 w3 w4 w5 where
    c: \<open>createAppInfo cfg w2 = Next w3\<close>
    and i: \<open>webos_handleIcons cfg w3 = Next w4\<close>
    and p: \<open>createIPK exec w4 = Next w5\<close>
    and d: \<open>webos_displayInstructions w5 = Next (snd (webos_main exec cfg w))\<close>
    using webos_steps_Next by blast
  have \<open>entry (staging (snd (webos_main exec cfg w))) ''appinfo.json'' = entry (staging w5) ''appinfo.json''\<close>
    using webos_report [OF d] by simp
  also have \<open>\<dots> = entry (staging w4) ''appinfo.json''\<close>
    by (rule createIPK_keeps [OF p assms(2)])
  also have \<open>\<dots> = entry (staging w3) ''appinfo.json''\<close>
    by (rule webos_handleIcons_keeps [OF i assms(3-5)])
  finally show ?thesis using createAppInfo_writes [OF c] by simp
qed

lemma dist_is_a_file:
  assumes \<open>dist w = Some (File c)\<close>
  shows \<open>copyDistFiles label w = Thrown (error_message ENOTDIR) (w\<lparr>staging := Some (Dir [])\<rparr>)\<close>
  using assms by (simp add: copyDistFiles_def Let_def)

lemma tizen_version_shown:
  assumes \<open>package_json w = Parsed pkg\<close> and \<open>get_version pkg = Some v\<close>
    and \<open>js_or v (JStr ''1.0.0'') = JStr s\<close>
    and \<open>fst (export_tizen exec w) = 0\<close> and \<open>keeps_file exec ''config.xml''\<close>
  shows \<open>tizen_descriptor_shows exec w s\<close>
proof -
  have run: \<open>export_tizen exec w = tizen_main exec (TIZEN_CONFIG v) w\<close>
    using assms(1,2) by (simp add: export_tizen_def)
  have c: \<open>version (TIZEN_CONFIG v) = JStr s\<close> and i: \<open>icon (TIZEN_CONFIG v) \<noteq> ''config.xml''\<close>
    using assms(3) by (simp_all add: TIZEN_CONFIG_def)
  from assms(4) have \<open>fst (tizen_main exec (TIZEN_CONFIG v) w) = 0\<close> by (simp only: run)
  from tizen_run_descriptor [OF this assms(5) i] configXml_string [OF c]
  have \<open>entry (staging (snd (export_tizen exec w))) ''config.xml''
      = Some (File (configXml_text (TIZEN_CONFIG v) s))\<close>
    by (auto simp only: run)
  then show ?thesis
    unfolding tizen_descriptor_shows_def opens_with_def using configXml_opening [of s v] by simp
qed

lemma webos_version_shown:
  assumes \<open>package_json w = Parsed pkg\<close> and \<open>get_version pkg = Some v\<close>
    and \<open>js_or v (JStr ''1.0.0'') = JStr s\<close>
    and \<open>fst (export_webos exec w) = 0\<close> and \<open>keeps_file exec ''appinfo.json''\<close>
  shows \<open>webos_descriptor_shows exec w (json_quote s)\<close>
proof -
  have run: \<open>export_webos exec w = webos_main exec (WEBOS_CONFIG v) w\<close>
    using assms(1,2) by (simp add: export_webos_def)
  have i: \<open>wicon (WEBOS_CONFIG v) \<noteq> ''appinfo.json''\<close>
    \<open>largeIcon (WEBOS_CONFIG v) \<noteq> ''appinfo.json''\<close> \<open>bgImage (WEBOS_CONFIG v) \<noteq> ''appinfo.json''\<close>
    by (simp_all add: WEBOS_CONFIG_def)
  from assms(4) have \<open>fst (webos_main exec (WEBOS_CONFIG v) w) = 0\<close> by (simp only: run)
  from webos_run_descriptor [OF this assms(5) i]
  have \<open>entry (staging (snd (export_webos exec w))) ''appinfo.json''
      = Some (File (json_stringify [] (appInfo (WEBOS_CONFIG v))))\<close>
    by (simp only: run)
  then show ?thesis
    unfolding webos_descriptor_shows_def opens_with_def
    using appinfo_opening_prefix [of v] by (simp add: assms(3))
qed

lemma default_version_quoted: \<open>json_quote ''1.0.0'' = ''"1.0.0"''\<close>
  by (simp add: json_quote_plain json_plain_def dquote_def backslash_def)

lemma sample_tizen_run:
  assumes \<open>configXml cfg = Some xml\<close>
  shows \<open>fst (tizen_main no_cli cfg (sample_world\<lparr>package_json := p\<rparr>)) = 0\<close>
proof -
  obtain w3 where d: \<open>tizen_descriptor_steps cfg
      (say Log (''Starting Tizen export process...'' @ newline) (sample_world\<lparr>package_json := p\<rparr>))
        = Next w3\<close> and i: \<open>images w3 ''icon-512.png'' = None\<close>
    using assms
    by (simp add: tizen_descriptor_steps_def copyDistFiles_def fixIndexHtmlPaths_def
        createConfigXml_def sample_world_def sample_dist_def say_def
        sample_decode sample_rewrite Let_def)
  obtain w4 where w4: \<open>tizen_handleIcons cfg w3 = Next w4\<close>
    using i by (simp add: tizen_handleIcons_def)
  obtain w5 where w5: \<open>createWGT no_cli cfg w4 = Next w5\<close>
    using createWGT_Next by blast
  obtain w6 where w6: \<open>tizen_displayInstructions cfg w5 = Next w6\<close>
    using tizen_displayInstructions_Next by blast
  show ?thesis
    unfolding tizen_main_def tizen_steps_def d and_then_Next w4 w5 w6 by simp
qed

lemma sample_webos_run:
  \<open>fst (webos_main no_cli cfg (sample_world\<lparr>package_json := p\<rparr>)) = 0\<close>
proof -
  obtain w4 where d: \<open>and_then (webos_descriptor_steps cfg
      (say Log (''Starting webOS export process...'' @ newline) (sample_world\<lparr>package_json := p\<rparr>)))
        (webos_handleIcons cfg) = Next w4\<close>
    by (simp add: webos_descriptor_steps_def copyDistFiles_def fixIndexHtmlPaths_def
        createAppInfo_def sample_world_def sample_dist_def say_def says_def
        sample_decode sample_rewrite Let_def webos_handleIcons_def copy_asset_def)
  obtain w5 where w5: \<open>createIPK no_cli w4 = Next w5\<close>
    by (simp add: createIPK_def no_cli_def)
  obtain w6 where w6: \<open>webos_displayInstructions w5 = Next w6\<close>
    by (simp add: webos_displayInstructions_def)
  show ?thesis
    unfolding webos_main_def webos_steps_def d and_then_Next w5 w6 by simp
qed

lemma sample_export_tizen:
  assumes \<open>get_version pkg = Some v\<close> and \<open>js_or v (JStr ''1.0.0'') = JStr s\<close>
  shows \<open>fst (export_tizen no_cli (sample_world\<lparr>package_json := Parsed pkg\<rparr>)) = 0\<close>
proof -
  have \<open>version (TIZEN_CONFIG v) = JStr s\<close> using assms(2) by (simp add: TIZEN_CONFIG_def)
  from sample_tizen_run [OF configXml_string [OF this]] assms(1) show ?thesis
    by (simp add: export_tizen_def)
qed

lemma sample_export_webos:
  assumes \<open>get_version pkg = Some v\<close>
  shows \<open>fst (export_webos no_cli (sample_world\<lparr>package_json := Parsed pkg\<rparr>)) = 0\<close>
  using sample_webos_run assms by (simp add: export_webos_def)

lemma no_cli_keeps: \<open>keeps_file no_cli f\<close>
  by (simp add: keeps_file_def no_cli_def)

lemma tizen_step_version_shown:
  assumes \<open>js_or v (JStr ''1.0.0'') = JStr s\<close> and \<open>createConfigXml (TIZEN_CONFIG v) wa = Next wb\<close>
  shows \<open>opens_with (widget_opening s) (entry (staging wb) ''config.xml'')\<close>
proof -
  have \<open>version (TIZEN_CONFIG v) = JStr s\<close>
    using assms(1) by (simp add: TIZEN_CONFIG_def)
  from createConfigXml_writes [OF assms(2)] configXml_string [OF this]
  have \<open>entry (staging wb) ''config.xml'' = Some (File (configXml_text (TIZEN_CONFIG v) s))\<close>
    by auto
  then show ?thesis
    unfolding opens_with_def using configXml_opening [of s v] by simp
qed

lemma webos_step_version_shown:
  assumes \<open>js_or v (JStr ''1.0.0'') = JStr s\<close> and \<open>createAppInfo (WEBOS_CONFIG v) ua = Next ub\<close>
  shows \<open>opens_with (appinfo_opening (json_quote s)) (entry (staging ub) ''appinfo.json'')\<close>
  unfolding opens_with_def
  using createAppInfo_writes [OF assms(2)] appinfo_opening_prefix [of v] by (simp add: assms(1))

lemma sample_createConfigXml:
  assumes \<open>configXml cfg = Some xml\<close>
  shows \<open>\<exists>wb. createConfigXml cfg sample_world = Next wb\<close>
  using assms by (simp add: createConfigXml_def sample_world_def)

lemma sample_createAppInfo: \<open>\<exists>ub. createAppInfo cfg sample_world = Next ub\<close>
  by (simp add: createAppInfo_def sample_world_def)

subsection \<open>The paths of the entry file\<close>





subsection \<open>A missing web export\<close>




subsection \<open>The recursive copy\<close>

text \<open>
  Claim C3. For every dist directory holding a nested tree of files and
  subdirectories, the recursive copy into a destination that is absent or an empty
  directory succeeds and leaves there a tree equal to the source: the same names at
  every level, each file with the same bytes, nothing more and nothing less.
\<close>

theorem copyDirectory_full_copy:
  \<open>wf_node (Dir es) \<Longrightarrow>
     copyDirectory (Dir es) None = Ok (Dir es) \<and>
     copyDirectory (Dir es) (Some (Dir [])) = Ok (Dir es)\<close>
  using copyDirectory_fresh [of \<open>Dir es\<close> es] copyDirectory_into_empty [of es] by simp


theorem copyDirectory_full_copy_witness:
  \<open>wf_node sample_dist \<and> copyDirectory sample_dist None = Ok sample_dist \<and>
   copyDirectory sample_dist (Some (Dir [])) = Ok sample_dist\<close>
  using copyDirectory_full_copy
    [of \<open>[(''index.html'', File ''<script src="/_expo/app.js"></script><img src="/logo.png">''),
          (''_expo'', Dir [(''app.js'', File ''console.log(1)'')])]\<close>]
  by (simp add: sample_dist_def)

subsection \<open>Rebuilding the staging directory\<close>

text \<open>
  Claim C4. Whatever is at the staging path before (nothing, a file, or a directory
  left by an earlier run), \<open>copyDistFiles\<close> on a dist directory succeeds and leaves at
  the staging path exactly a copy of dist: the result does not mention the old
  staging content, so no stale entry survives.
\<close>

theorem copyDistFiles_replaces_staging:
  assumes \<open>dist w = Some (Dir es)\<close> and \<open>wf_node (Dir es)\<close>
  shows \<open>copyDistFiles label w =
           Next (say Log (check_mark @ '' Copied dist files to '' @ label @ '' build directory'')
                  (w\<lparr>staging := Some (Dir es)\<rparr>))\<close>
proof -
  have \<open>copyDirectory (Dir es) (Some (Dir [])) = Ok (Dir es)\<close>
    by (rule copyDirectory_into_empty [OF assms(2)])
  then show ?thesis
    using assms(1) by (simp add: copyDistFiles_def Let_def del: copyDirectory.simps)
qed

theorem copyDistFiles_replaces_staging_witness:
  \<open>dist sample_world = Some sample_dist \<and> wf_node sample_dist \<and>
   staging sample_world = Some (Dir [(''stale.txt'', File ''old'')]) \<and>
   (\<exists>w'. copyDistFiles ''Tizen'' sample_world = Next w' \<and> staging w' = Some sample_dist)\<close>
proof -
  have d: \<open>dist sample_world = Some (Dir [(''index.html'', File ''<script src="/_expo/app.js"></script><img src="/logo.png">''),
          (''_expo'', Dir [(''app.js'', File ''console.log(1)'')])])\<close>
    by (simp add: sample_world_def sample_dist_def)
  have wf: \<open>wf_node (Dir [(''index.html'', File ''<script src="/_expo/app.js"></script><img src="/logo.png">''),
          (''_expo'', Dir [(''app.js'', File ''console.log(1)'')])])\<close>
    by simp
  show ?thesis
    using copyDistFiles_replaces_staging [OF d wf, of \<open>''Tizen''\<close>] d wf
    by (simp add: sample_dist_def sample_world_def)
qed

subsection \<open>The prefix passes and the generic passes\<close>

text \<open>
  Claim C5, as stated, fails: the prefix pass rewrites \<^verbatim>\<open>src="/_expo/\<close> wherever it
  stands, the generic pass only when a closing quote follows. On the input
  \<^verbatim>\<open>src="/_expo/\<close> the generic passes alone change nothing, the four passes strip
  the slash.
\<close>

theorem prefix_pass_counterexample:
  \<open>rewrite_generic ''src="/_expo/'' = ''src="/_expo/'' \<and>
   rewrite_paths ''src="/_expo/'' = ''src="_expo/''\<close>
  by (simp add: rewrite_paths_def rewrite_expo_def rewrite_generic_def match_attr_def dquote_def)


text \<open>
  Claim C5, amended. For every input whose double quotes pair up into values none of
  which ends in \<^verbatim>\<open>src=\<close> or \<^verbatim>\<open>href=\<close>, the generic passes alone give the same
  result as the prefix passes followed by the generic passes.
\<close>

theorem prefix_pass_redundant_on_paired_quotes:
  assumes \<open>paired d e\<close>
  shows \<open>rewrite_generic (render d e) = rewrite_paths (render d e)\<close>
  using rewrite_generic_render [OF assms] rewrite_paths_render [OF assms] by simp

theorem prefix_pass_redundant_on_paired_quotes_witness:
  \<open>paired [(''<script src='', ''/_expo/foo.js'')] ''></script>'' \<and>
   rewrite_generic ''<script src="/_expo/foo.js"></script>''
     = rewrite_paths ''<script src="/_expo/foo.js"></script>''\<close>
proof -
  have p: \<open>paired [(''<script src='', ''/_expo/foo.js'')] ''></script>''\<close>
    by (simp add: paired_def paired_value_def dquote_def suffix_to_prefix)
  from prefix_pass_redundant_on_paired_quotes [OF p] p show ?thesis
    by (simp add: dquote_def)
qed

subsection \<open>The version in the descriptors\<close>

text \<open>
  Claim C6. Let \<^verbatim>\<open>package.json\<close> parse to an object. When the object has no
  \<^verbatim>\<open>version\<close> property, each script runs its \<^verbatim>\<open>main\<close> with the configuration
  built from \<^verbatim>\<open>undefined\<close>; whenever \<open>createConfigXml\<close> succeeds with that
  configuration, the \<^verbatim>\<open>config.xml\<close> it leaves opens with the widget tag carrying
  \<^verbatim>\<open>version="1.0.0"\<close>, and whenever \<open>createAppInfo\<close> succeeds, the
  \<^verbatim>\<open>appinfo.json\<close> it leaves opens with \<^verbatim>\<open>"version": "1.0.0"\<close>; and a run of the
  script that ends with exit status 0 leaves that descriptor in its staging directory.
  When the property is a non-empty string \<open>s\<close>, the same holds with the configuration
  built from \<open>s\<close>: \<^verbatim>\<open>config.xml\<close> carries \<open>s\<close> as it is, and \<^verbatim>\<open>appinfo.json\<close>
  carries the JSON string literal of \<open>s\<close>, which is \<open>s\<close> between double quotes when
  \<open>s\<close> has no character that JSON escapes. The packaging tool runs after the
  descriptor step; for the descriptor read at the end of a run it is taken not to
  change that file.
\<close>

theorem version_in_descriptors:
  assumes \<open>package_json w = Parsed (JObj fs)\<close>
  shows \<open>(map_of fs ''version'' = None \<longrightarrow>
            export_tizen exec w = tizen_main exec (TIZEN_CONFIG JUndefined) w \<and>
            export_webos exec w = webos_main exec (WEBOS_CONFIG JUndefined) w \<and>
            (createConfigXml (TIZEN_CONFIG JUndefined) wa = Next wb \<longrightarrow>
               opens_with (widget_opening ''1.0.0'') (entry (staging wb) ''config.xml'')) \<and>
            (createAppInfo (WEBOS_CONFIG JUndefined) ua = Next ub \<longrightarrow>
               opens_with (appinfo_opening ''"1.0.0"'') (entry (staging ub) ''appinfo.json'')) \<and>
            (fst (export_tizen exec w) = 0 \<and> keeps_file exec ''config.xml'' \<longrightarrow>
               tizen_descriptor_shows exec w ''1.0.0'') \<and>
            (fst (export_webos exec w) = 0 \<and> keeps_file exec ''appinfo.json'' \<longrightarrow>
               webos_descriptor_shows exec w ''"1.0.0"'')) \<and>
         (map_of fs ''version'' = Some (JStr s) \<and> s \<noteq> [] \<longrightarrow>
            export_tizen exec w = tizen_main exec (TIZEN_CONFIG (JStr s)) w \<and>
            export_webos exec w = webos_main exec (WEBOS_CONFIG (JStr s)) w \<and>
            (createConfigXml (TIZEN_CONFIG (JStr s)) wa = Next wb \<longrightarrow>
               opens_with (widget_opening s) (entry (staging wb) ''config.xml'')) \<and>
            (createAppInfo (WEBOS_CONFIG (JStr s)) ua = Next ub \<longrightarrow>
               opens_with (appinfo_opening (json_quote s)) (entry (staging ub) ''appinfo.json'')) \<and>
            (fst (export_tizen exec w) = 0 \<and> keeps_file exec ''config.xml'' \<longrightarrow>
               tizen_descriptor_shows exec w s) \<and>
            (fst (export_webos exec w) = 0 \<and> keeps_file exec ''appinfo.json'' \<longrightarrow>
               webos_descriptor_shows exec w (json_quote s)) \<and>
            (list_all json_plain s \<longrightarrow> json_quote s = dquote # s @ [dquote]))\<close>
proof (intro conjI impI)
  assume a: \<open>map_of fs ''version'' = None\<close>
  then have g: \<open>get_version (JObj fs) = Some JUndefined\<close> by simp
  have d: \<open>js_or JUndefined (JStr ''1.0.0'') = JStr ''1.0.0''\<close> by (simp add: js_or_def)
  show \<open>export_tizen exec w = tizen_main exec (TIZEN_CONFIG JUndefined) w\<close>
    using assms g by (simp add: export_tizen_def)
  show \<open>export_webos exec w = webos_main exec (WEBOS_CONFIG JUndefined) w\<close>
    using assms g by (simp add: export_webos_def)
  {
    assume \<open>createConfigXml (TIZEN_CONFIG JUndefined) wa = Next wb\<close>
    then show \<open>opens_with (widget_opening ''1.0.0'') (entry (staging wb) ''config.xml'')\<close>
      by (rule tizen_step_version_shown [OF d])
  }
  {
    assume \<open>createAppInfo (WEBOS_CONFIG JUndefined) ua = Next ub\<close>
    then have \<open>opens_with (appinfo_opening (json_quote ''1.0.0'')) (entry (staging ub) ''appinfo.json'')\<close>
      by (rule webos_step_version_shown [OF d])
    then show \<open>opens_with (appinfo_opening ''"1.0.0"'') (entry (staging ub) ''appinfo.json'')\<close>
      by (simp only: default_version_quoted)
  }
  {
    assume \<open>fst (export_tizen exec w) = 0 \<and> keeps_file exec ''config.xml''\<close>
    then show \<open>tizen_descriptor_shows exec w ''1.0.0''\<close>
      using tizen_version_shown [OF assms g d] by blast
  }
  {
    assume \<open>fst (export_webos exec w) = 0 \<and> keeps_file exec ''appinfo.json''\<close>
    then have \<open>webos_descriptor_shows exec w (json_quote ''1.0.0'')\<close>
      using webos_version_shown [OF assms g d] by blast
    then show \<open>webos_descriptor_shows exec w ''"1.0.0"''\<close>
      by (simp only: default_version_quoted)
  }
next
  assume a: \<open>map_of fs ''version'' = Some (JStr s) \<and> s \<noteq> []\<close>
  then have g: \<open>get_version (JObj fs) = Some (JStr s)\<close> by simp
  from a have d: \<open>js_or (JStr s) (JStr ''1.0.0'') = JStr s\<close> by (simp add: js_or_def)
  show \<open>export_tizen exec w = tizen_main exec (TIZEN_CONFIG (JStr s)) w\<close>
    using assms g by (simp add: export_tizen_def)
  show \<open>export_webos exec w = webos_main exec (WEBOS_CONFIG (JStr s)) w\<close>
    using assms g by (simp add: export_webos_def)
  {
    assume \<open>createConfigXml (TIZEN_CONFIG (JStr s)) wa = Next wb\<close>
    then show \<open>opens_with (widget_opening s) (entry (staging wb) ''config.xml'')\<close>
      by (rule tizen_step_version_shown [OF d])
  }
  {
    assume \<open>createAppInfo (WEBOS_CONFIG (JStr s)) ua = Next ub\<close>
    then show \<open>opens_with (appinfo_opening (json_quote s)) (entry (staging ub) ''appinfo.json'')\<close>
      by (rule webos_step_version_shown [OF d])
  }
  {
    assume \<open>fst (export_tizen exec w) = 0 \<and> keeps_file exec ''config.xml''\<close>
    then show \<open>tizen_descriptor_shows exec w s\<close>
      using tizen_version_shown [OF assms g d] by blast
  }
  {
    assume \<open>fst (export_webos exec w) = 0 \<and> keeps_file exec ''appinfo.json''\<close>
    then show \<open>webos_descriptor_shows exec w (json_quote s)\<close>
      using webos_version_shown [OF assms g d] by blast
  }
next
  assume \<open>list_all json_plain s\<close>
  then show \<open>json_quote s = dquote # s @ [dquote]\<close> by (rule json_quote_plain)
qed

theorem version_in_descriptors_witness:
  \<open>(\<exists>wb. createConfigXml (TIZEN_CONFIG JUndefined) sample_world = Next wb \<and>
         opens_with (widget_opening ''1.0.0'') (entry (staging wb) ''config.xml'')) \<and>
   (\<exists>ub. createAppInfo (WEBOS_CONFIG JUndefined) sample_world = Next ub \<and>
         opens_with (appinfo_opening ''"1.0.0"'') (entry (staging ub) ''appinfo.json'')) \<and>
   fst (export_tizen no_cli (sample_world\<lparr>package_json := Parsed (JObj [(''name'', JStr ''app'')])\<rparr>)) = 0 \<and>
   tizen_descriptor_shows no_cli
     (sample_world\<lparr>package_json := Parsed (JObj [(''name'', JStr ''app'')])\<rparr>) ''1.0.0'' \<and>
   fst (export_webos no_cli (sample_world\<lparr>package_json := Parsed (JObj [(''name'', JStr ''app'')])\<rparr>)) = 0 \<and>
   webos_descriptor_shows no_cli
     (sample_world\<lparr>package_json := Parsed (JObj [(''name'', JStr ''app'')])\<rparr>) ''"1.0.0"'' \<and>
   (\<exists>wb. createConfigXml (TIZEN_CONFIG (JStr ''2.3.1'')) sample_world = Next wb \<and>
         opens_with (widget_opening ''2.3.1'') (entry (staging wb) ''config.xml'')) \<and>
   (\<exists>ub. createAppInfo (WEBOS_CONFIG (JStr ''2.3.1'')) sample_world = Next ub \<and>
         opens_with (appinfo_opening ''"2.3.1"'') (entry (staging ub) ''appinfo.json'')) \<and>
   fst (export_tizen no_cli
     (sample_world\<lparr>package_json := Parsed (JObj [(''name'', JStr ''app''), (''version'', JStr ''2.3.1'')])\<rparr>)) = 0 \<and>
   tizen_descriptor_shows no_cli
     (sample_world\<lparr>package_json := Parsed (JObj [(''name'', JStr ''app''), (''version'', JStr ''2.3.1'')])\<rparr>)
     ''2.3.1'' \<and>
   fst (export_webos no_cli
     (sample_world\<lparr>package_json := Parsed (JObj [(''name'', JStr ''app''), (''version'', JStr ''2.3.1'')])\<rparr>)) = 0 \<and>
   webos_descriptor_shows no_cli
     (sample_world\<lparr>package_json := Parsed (JObj [(''name'', JStr ''app''), (''version'', JStr ''2.3.1'')])\<rparr>)
     ''"2.3.1"''\<close>
proof -
  let ?absent = \<open>sample_world\<lparr>package_json := Parsed (JObj [(''name'', JStr ''app'')])\<rparr>\<close>
  let ?present = \<open>sample_world\<lparr>package_json :=
      Parsed (JObj [(''name'', JStr ''app''), (''version'', JStr ''2.3.1'')])\<rparr>\<close>
  have q: \<open>json_quote ''2.3.1'' = ''"2.3.1"''\<close>
    by (simp add: json_quote_plain json_plain_def dquote_def backslash_def)
  have ta: \<open>fst (export_tizen no_cli ?absent) = 0\<close>
    by (rule sample_export_tizen [of _ JUndefined \<open>''1.0.0''\<close>]) (simp_all add: js_or_def)
  have wa: \<open>fst (export_webos no_cli ?absent) = 0\<close>
    by (rule sample_export_webos [of _ JUndefined]) simp
  have tp: \<open>fst (export_tizen no_cli ?present) = 0\<close>
    by (rule sample_export_tizen [of _ \<open>JStr ''2.3.1''\<close> \<open>''2.3.1''\<close>]) (simp_all add: js_or_def)
  have wp: \<open>fst (export_webos no_cli ?present) = 0\<close>
    by (rule sample_export_webos [of _ \<open>JStr ''2.3.1''\<close>]) simp
  have pa: \<open>package_json ?absent = Parsed (JObj [(''name'', JStr ''app'')])\<close>
    and pp: \<open>package_json ?present
      = Parsed (JObj [(''name'', JStr ''app''), (''version'', JStr ''2.3.1'')])\<close>
    by simp_all
  have absent: \<open>map_of [(''name'', JStr ''app'')] ''version'' = None\<close>
    by simp
  have present: \<open>map_of [(''name'', JStr ''app''), (''version'', JStr ''2.3.1'')] ''version''
      = Some (JStr ''2.3.1'') \<and> ''2.3.1'' \<noteq> []\<close>
    by simp
  obtain xa where xa: \<open>createConfigXml (TIZEN_CONFIG JUndefined) sample_world = Next xa\<close>
    using sample_createConfigXml [OF sample_configXml] by blast
  obtain ya where ya: \<open>createAppInfo (WEBOS_CONFIG JUndefined) sample_world = Next ya\<close>
    using sample_createAppInfo by blast
  have \<open>version (TIZEN_CONFIG (JStr ''2.3.1'')) = JStr ''2.3.1''\<close>
    by (simp add: TIZEN_CONFIG_def js_or_def)
  from sample_createConfigXml [OF configXml_string [OF this]]
  obtain xp where xp: \<open>createConfigXml (TIZEN_CONFIG (JStr ''2.3.1'')) sample_world = Next xp\<close>
    by blast
  obtain yp where yp: \<open>createAppInfo (WEBOS_CONFIG (JStr ''2.3.1'')) sample_world = Next yp\<close>
    using sample_createAppInfo by blast
  from version_in_descriptors
    [OF pa, where exec = no_cli and wa = sample_world and wb = xa and ua = sample_world and ub = ya]
    absent ta wa no_cli_keeps xa ya
  have one: \<open>opens_with (widget_opening ''1.0.0'') (entry (staging xa) ''config.xml'') \<and>
      opens_with (appinfo_opening ''"1.0.0"'') (entry (staging ya) ''appinfo.json'') \<and>
      tizen_descriptor_shows no_cli ?absent ''1.0.0'' \<and>
      webos_descriptor_shows no_cli ?absent ''"1.0.0"''\<close>
    by blast
  from version_in_descriptors
    [OF pp, where exec = no_cli and s = \<open>''2.3.1''\<close> and wa = sample_world and wb = xp
       and ua = sample_world and ub = yp]
    present tp wp no_cli_keeps xp yp
  have two: \<open>opens_with (widget_opening ''2.3.1'') (entry (staging xp) ''config.xml'') \<and>
      opens_with (appinfo_opening (json_quote ''2.3.1'')) (entry (staging yp) ''appinfo.json'') \<and>
      tizen_descriptor_shows no_cli ?present ''2.3.1'' \<and>
      webos_descriptor_shows no_cli ?present (json_quote ''2.3.1'')\<close>
    by blast
  from one two xa ya xp yp ta wa tp wp show ?thesis unfolding q by blast
qed

text \<open>
  Claim C10. Let \<^verbatim>\<open>package.json\<close> parse to an object whose \<^verbatim>\<open>version\<close> property
  \<open>v\<close> is there but falsy (the empty string, \<^verbatim>\<open>0\<close>, \<^verbatim>\<open>false\<close>, \<^verbatim>\<open>null\<close>). Then
  each script runs its \<^verbatim>\<open>main\<close> with the configuration built from \<open>v\<close>, which holds
  the version \<open>''1.0.0''\<close>; whenever \<open>createConfigXml\<close> (\<open>createAppInfo\<close>) succeeds
  with it, the \<^verbatim>\<open>config.xml\<close> (\<^verbatim>\<open>appinfo.json\<close>) it leaves carries \<open>1.0.0\<close>, not
  the value given; and a run that ends with exit status 0 leaves that descriptor in
  its staging directory, the packaging tool again taken not to change it.
\<close>

theorem falsy_version_falls_back:
  assumes \<open>package_json w = Parsed (JObj fs)\<close>
    and \<open>map_of fs ''version'' = Some v\<close> and \<open>\<not> truthy v\<close>
  shows \<open>export_tizen exec w = tizen_main exec (TIZEN_CONFIG v) w \<and>
         export_webos exec w = webos_main exec (WEBOS_CONFIG v) w \<and>
         version (TIZEN_CONFIG v) = JStr ''1.0.0'' \<and>
         wversion (WEBOS_CONFIG v) = JStr ''1.0.0'' \<and>
         (createConfigXml (TIZEN_CONFIG v) wa = Next wb \<longrightarrow>
            opens_with (widget_opening ''1.0.0'') (entry (staging wb) ''config.xml'')) \<and>
         (createAppInfo (WEBOS_CONFIG v) ua = Next ub \<longrightarrow>
            opens_with (appinfo_opening ''"1.0.0"'') (entry (staging ub) ''appinfo.json'')) \<and>
         (fst (export_tizen exec w) = 0 \<and> keeps_file exec ''config.xml'' \<longrightarrow>
            tizen_descriptor_shows exec w ''1.0.0'') \<and>
         (fst (export_webos exec w) = 0 \<and> keeps_file exec ''appinfo.json'' \<longrightarrow>
            webos_descriptor_shows exec w ''"1.0.0"'')\<close>
proof -
  have g: \<open>get_version (JObj fs) = Some v\<close> using assms(2) by simp
  have d: \<open>js_or v (JStr ''1.0.0'') = JStr ''1.0.0''\<close>
    using assms(3) by (simp add: js_or_def)
  have et: \<open>export_tizen exec w = tizen_main exec (TIZEN_CONFIG v) w\<close>
    using assms(1) g by (simp add: export_tizen_def)
  have ew: \<open>export_webos exec w = webos_main exec (WEBOS_CONFIG v) w\<close>
    using assms(1) g by (simp add: export_webos_def)
  have c: \<open>version (TIZEN_CONFIG v) = JStr ''1.0.0''\<close> \<open>wversion (WEBOS_CONFIG v) = JStr ''1.0.0''\<close>
    using d by (simp_all add: TIZEN_CONFIG_def WEBOS_CONFIG_def)
  have st: \<open>opens_with (widget_opening ''1.0.0'') (entry (staging wb) ''config.xml'')\<close>
    if \<open>createConfigXml (TIZEN_CONFIG v) wa = Next wb\<close>
    using that by (rule tizen_step_version_shown [OF d])
  have sl: \<open>opens_with (appinfo_opening ''"1.0.0"'') (entry (staging ub) ''appinfo.json'')\<close>
    if \<open>createAppInfo (WEBOS_CONFIG v) ua = Next ub\<close>
    using webos_step_version_shown [OF d that] by (simp only: default_version_quoted)
  have t: \<open>tizen_descriptor_shows exec w ''1.0.0''\<close>
    if \<open>fst (export_tizen exec w) = 0 \<and> keeps_file exec ''config.xml''\<close>
    using tizen_version_shown [OF assms(1) g d] that by blast
  have l: \<open>webos_descriptor_shows exec w ''"1.0.0"''\<close>
    if \<open>fst (export_webos exec w) = 0 \<and> keeps_file exec ''appinfo.json''\<close>
    using webos_version_shown [OF assms(1) g d] that by (simp add: default_version_quoted)
  from et ew c st sl t l show ?thesis by blast
qed

theorem falsy_version_falls_back_witness:
  \<open>\<not> truthy (JStr '''') \<and>
   (\<exists>wb. createConfigXml (TIZEN_CONFIG (JStr '''')) sample_world = Next wb \<and>
         opens_with (widget_opening ''1.0.0'') (entry (staging wb) ''config.xml'')) \<and>
   (\<exists>ub. createAppInfo (WEBOS_CONFIG (JStr '''')) sample_world = Next ub \<and>
         opens_with (appinfo_opening ''"1.0.0"'') (entry (staging ub) ''appinfo.json'')) \<and>
   fst (export_tizen no_cli (sample_world\<lparr>package_json := Parsed (JObj [(''version'', JStr '''')])\<rparr>)) = 0 \<and>
   tizen_descriptor_shows no_cli
     (sample_world\<lparr>package_json := Parsed (JObj [(''version'', JStr '''')])\<rparr>) ''1.0.0'' \<and>
   fst (export_webos no_cli (sample_world\<lparr>package_json := Parsed (JObj [(''version'', JStr '''')])\<rparr>)) = 0 \<and>
   webos_descriptor_shows no_cli
     (sample_world\<lparr>package_json := Parsed (JObj [(''version'', JStr '''')])\<rparr>) ''"1.0.0"''\<close>
proof -
  let ?w = \<open>sample_world\<lparr>package_json := Parsed (JObj [(''version'', JStr '''')])\<rparr>\<close>
  have t: \<open>fst (export_tizen no_cli ?w) = 0\<close>
    by (rule sample_export_tizen [of _ \<open>JStr ''''\<close> \<open>''1.0.0''\<close>]) (simp_all add: js_or_def)
  have l: \<open>fst (export_webos no_cli ?w) = 0\<close>
    by (rule sample_export_webos [of _ \<open>JStr ''''\<close>]) simp
  have p: \<open>package_json ?w = Parsed (JObj [(''version'', JStr '''')])\<close> by simp
  have m: \<open>map_of [(''version'', JStr '''')] ''version'' = Some (JStr '''')\<close> by simp
  have f: \<open>\<not> truthy (JStr '''')\<close> by simp
  have \<open>version (TIZEN_CONFIG (JStr '''')) = JStr ''1.0.0''\<close>
    by (simp add: TIZEN_CONFIG_def js_or_def)
  from sample_createConfigXml [OF configXml_string [OF this]]
  obtain x where x: \<open>createConfigXml (TIZEN_CONFIG (JStr '''')) sample_world = Next x\<close>
    by blast
  obtain y where y: \<open>createAppInfo (WEBOS_CONFIG (JStr '''')) sample_world = Next y\<close>
    using sample_createAppInfo by blast
  from falsy_version_falls_back
    [OF p m f, where exec = no_cli and wa = sample_world and wb = x and ua = sample_world and ub = y]
    t l no_cli_keeps f x y
  show ?thesis
    by blast
qed

subsection \<open>A packaging tool that is absent or fails\<close>

text \<open>
  Claim C7. Let the copy, rewrite, descriptor and icon steps have succeeded, leaving
  the world \<open>w4\<close>, and let the packaging tool be absent (\<^verbatim>\<open>which\<close> fails) or fail
  (\<^verbatim>\<open>which\<close> succeeds and the packaging command exits with a status other than 0),
  \<open>w5\<close> being the world the failed command leaves. Then the script ends with exit
  status 0; the staging directory (descriptor included) and dist are as in \<open>w5\<close>, so
  the packaging step itself deletes and changes nothing; and the console shows, after
  what it showed in \<open>w5\<close>, the warning that the tool was not found and the steps to
  package by hand, line by line as below. This holds for the Tizen script and for the
  webOS script.
\<close>

theorem packaging_failure_is_a_warning:
  \<open>(and_then (tizen_descriptor_steps cfg (say Log (''Starting Tizen export process...'' @ newline) w))
       (tizen_handleIcons cfg) = Next w4 \<and>
     (exec ''which tizen'' w4 = (False, w5) \<or>
      (\<exists>w'. exec ''which tizen'' w4 = (True, w') \<and>
         exec (tizen_package_command cfg (say Log (newline @ package_sign @ '' Creating WGT package...'') w'))
              (say Log (newline @ package_sign @ '' Creating WGT package...'') w') = (False, w5)))
     \<longrightarrow> fst (tizen_main exec cfg w) = 0 \<and>
         staging (snd (tizen_main exec cfg w)) = staging w5 \<and>
         dist (snd (tizen_main exec cfg w)) = dist w5 \<and>
         (\<exists>rest. console (snd (tizen_main exec cfg w))
                   = console w5 @
                     map (Pair Warn)
                       [newline @ warning_sign @ '' tizen CLI not found. To create a WGT package:'',
                        ''  1. Install Tizen Studio: https://developer.tizen.org/development/tizen-studio/download'',
                        ''  2. Add tizen CLI to your PATH'',
                        ''  3. Create certificate: tizen certificate -a MyProfile -p <password>'',
                        ''  4. Run: tizen package -t wgt -s '' @ packageId cfg @ '' -- tizen-build'']
                     @ rest)) \<and>
   (and_then (webos_descriptor_steps wcfg (say Log (''Starting webOS export process...'' @ newline) w))
       (webos_handleIcons wcfg) = Next w4 \<and>
     (exec ''which ares-package'' w4 = (False, w5) \<or>
      (\<exists>w'. exec ''which ares-package'' w4 = (True, w') \<and>
         exec (webos_package_command (say Log (newline @ package_sign @ '' Creating IPK package...'') w'))
              (say Log (newline @ package_sign @ '' Creating IPK package...'') w') = (False, w5)))
     \<longrightarrow> fst (webos_main exec wcfg w) = 0 \<and>
         staging (snd (webos_main exec wcfg w)) = staging w5 \<and>
         dist (snd (webos_main exec wcfg w)) = dist w5 \<and>
         (\<exists>rest. console (snd (webos_main exec wcfg w))
                   = console w5 @
                     map (Pair Warn)
                       [newline @ warning_sign @ '' ares-package not found. To create an IPK package:'',
                        ''  1. Install webOS CLI: npm install -g @webos-tools/cli'',
                        ''  2. Run: ares-package webos-build --no-minify'']
                     @ rest))\<close>
proof (intro conjI impI)
  assume h: \<open>and_then (tizen_descriptor_steps cfg (say Log (''Starting Tizen export process...'' @ newline) w))
       (tizen_handleIcons cfg) = Next w4 \<and>
     (exec ''which tizen'' w4 = (False, w5) \<or>
      (\<exists>w'. exec ''which tizen'' w4 = (True, w') \<and>
         exec (tizen_package_command cfg (say Log (newline @ package_sign @ '' Creating WGT package...'') w'))
              (say Log (newline @ package_sign @ '' Creating WGT package...'') w') = (False, w5)))\<close>
  then have steps: \<open>and_then (tizen_descriptor_steps cfg (say Log (''Starting Tizen export process...'' @ newline) w))
       (tizen_handleIcons cfg) = Next w4\<close> by blast
  from h have pack: \<open>createWGT exec cfg w4 = Next (tizen_cli_warning cfg w5)\<close>
    by (intro createWGT_unavailable) blast
  obtain w6 where w6: \<open>tizen_displayInstructions cfg (tizen_cli_warning cfg w5) = Next w6\<close>
    using tizen_displayInstructions_Next by blast
  have run: \<open>tizen_main exec cfg w = (0, w6)\<close>
    unfolding tizen_main_def tizen_steps_def steps and_then_Next pack w6 by simp
  from tizen_report [OF w6] obtain rest where
    r: \<open>staging w6 = staging w5\<close> \<open>dist w6 = dist w5\<close>
       \<open>console w6 = (console w5 @ map (Pair Warn) (tizen_cli_warning_lines cfg)) @ rest\<close>
    by (auto simp: tizen_cli_warning_def)
  show \<open>fst (tizen_main exec cfg w) = 0\<close> by (simp add: run)
  show \<open>staging (snd (tizen_main exec cfg w)) = staging w5\<close> by (simp add: run r)
  show \<open>dist (snd (tizen_main exec cfg w)) = dist w5\<close> by (simp add: run r)
  have \<open>console (snd (tizen_main exec cfg w))
          = console w5 @ map (Pair Warn) (tizen_cli_warning_lines cfg) @ rest\<close>
    using r(3) by (simp add: run)
  then show \<open>\<exists>rest. console (snd (tizen_main exec cfg w))
                   = console w5 @
                     map (Pair Warn)
                       [newline @ warning_sign @ '' tizen CLI not found. To create a WGT package:'',
                        ''  1. Install Tizen Studio: https://developer.tizen.org/development/tizen-studio/download'',
                        ''  2. Add tizen CLI to your PATH'',
                        ''  3. Create certificate: tizen certificate -a MyProfile -p <password>'',
                        ''  4. Run: tizen package -t wgt -s '' @ packageId cfg @ '' -- tizen-build'']
                     @ rest\<close>
    unfolding tizen_cli_warning_lines_def by (rule exI)
next
  assume h: \<open>and_then (webos_descriptor_steps wcfg (say Log (''Starting webOS export process...'' @ newline) w))
       (webos_handleIcons wcfg) = Next w4 \<and>
     (exec ''which ares-package'' w4 = (False, w5) \<or>
      (\<exists>w'. exec ''which ares-package'' w4 = (True, w') \<and>
         exec (webos_package_command (say Log (newline @ package_sign @ '' Creating IPK package...'') w'))
              (say Log (newline @ package_sign @ '' Creating IPK package...'') w') = (False, w5)))\<close>
  then have steps: \<open>and_then (webos_descriptor_steps wcfg (say Log (''Starting webOS export process...'' @ newline) w))
       (webos_handleIcons wcfg) = Next w4\<close> by blast
  from h have pack: \<open>createIPK exec w4 = Next (webos_cli_warning w5)\<close>
    by (intro createIPK_unavailable) blast
  obtain w6 where w6: \<open>webos_displayInstructions (webos_cli_warning w5) = Next w6\<close>
    by (simp add: webos_displayInstructions_def)
  have run: \<open>webos_main exec wcfg w = (0, w6)\<close>
    unfolding webos_main_def webos_steps_def steps and_then_Next pack w6 by simp
  from webos_report [OF w6] obtain rest where
    r: \<open>staging w6 = staging w5\<close> \<open>dist w6 = dist w5\<close>
       \<open>console w6 = (console w5 @ map (Pair Warn) webos_cli_warning_lines) @ rest\<close>
    by (auto simp: webos_cli_warning_def)
  show \<open>fst (webos_main exec wcfg w) = 0\<close> by (simp add: run)
  show \<open>staging (snd (webos_main exec wcfg w)) = staging w5\<close> by (simp add: run r)
  show \<open>dist (snd (webos_main exec wcfg w)) = dist w5\<close> by (simp add: run r)
  have \<open>console (snd (webos_main exec wcfg w))
          = console w5 @ map (Pair Warn) webos_cli_warning_lines @ rest\<close>
    using r(3) by (simp add: run)
  then show \<open>\<exists>rest. console (snd (webos_main exec wcfg w))
                   = console w5 @
                     map (Pair Warn)
                       [newline @ warning_sign @ '' ares-package not found. To create an IPK package:'',
                        ''  1. Install webOS CLI: npm install -g @webos-tools/cli'',
                        ''  2. Run: ares-package webos-build --no-minify'']
                     @ rest\<close>
    unfolding webos_cli_warning_lines_def by (rule exI)
qed

theorem packaging_failure_is_a_warning_witness:
  \<open>no_cli ''which tizen'' tizen_staged = (False, tizen_staged) \<and>
   fst (tizen_main no_cli (TIZEN_CONFIG JUndefined) sample_world) = 0 \<and>
   staging (snd (tizen_main no_cli (TIZEN_CONFIG JUndefined) sample_world)) = staging tizen_staged \<and>
   (\<exists>rest. console (snd (tizen_main no_cli (TIZEN_CONFIG JUndefined) sample_world))
      = console tizen_staged @
        map (Pair Warn)
          [newline @ warning_sign @ '' tizen CLI not found. To create a WGT package:'',
           ''  1. Install Tizen Studio: https://developer.tizen.org/development/tizen-studio/download'',
           ''  2. Add tizen CLI to your PATH'',
           ''  3. Create certificate: tizen certificate -a MyProfile -p <password>'',
           ''  4. Run: tizen package -t wgt -s MultiTVExpoApp -- tizen-build'']
        @ rest) \<and>
   no_cli ''which ares-package'' webos_staged = (False, webos_staged) \<and>
   fst (webos_main no_cli (WEBOS_CONFIG JUndefined) sample_world) = 0 \<and>
   staging (snd (webos_main no_cli (WEBOS_CONFIG JUndefined) sample_world)) = staging webos_staged \<and>
   (\<exists>rest. console (snd (webos_main no_cli (WEBOS_CONFIG JUndefined) sample_world))
      = console webos_staged @
        map (Pair Warn)
          [newline @ warning_sign @ '' ares-package not found. To create an IPK package:'',
           ''  1. Install webOS CLI: npm install -g @webos-tools/cli'',
           ''  2. Run: ares-package webos-build --no-minify'']
        @ rest)\<close>
proof -
  have t: \<open>no_cli ''which tizen'' tizen_staged = (False, tizen_staged)\<close>
    and l: \<open>no_cli ''which ares-package'' webos_staged = (False, webos_staged)\<close>
    by (simp_all add: no_cli_def)
  have p: \<open>''  4. Run: tizen package -t wgt -s '' @ packageId (TIZEN_CONFIG JUndefined) @ '' -- tizen-build''
      = ''  4. Run: tizen package -t wgt -s MultiTVExpoApp -- tizen-build''\<close>
    by (simp add: TIZEN_CONFIG_def)
  from packaging_failure_is_a_warning
    [of \<open>TIZEN_CONFIG JUndefined\<close> sample_world tizen_staged no_cli tizen_staged
        \<open>WEBOS_CONFIG JUndefined\<close>]
    sample_tizen_staged t
  have a: \<open>fst (tizen_main no_cli (TIZEN_CONFIG JUndefined) sample_world) = 0 \<and>
    staging (snd (tizen_main no_cli (TIZEN_CONFIG JUndefined) sample_world)) = staging tizen_staged \<and>
    (\<exists>rest. console (snd (tizen_main no_cli (TIZEN_CONFIG JUndefined) sample_world))
      = console tizen_staged @
        map (Pair Warn)
          [newline @ warning_sign @ '' tizen CLI not found. To create a WGT package:'',
           ''  1. Install Tizen Studio: https://developer.tizen.org/development/tizen-studio/download'',
           ''  2. Add tizen CLI to your PATH'',
           ''  3. Create certificate: tizen certificate -a MyProfile -p <password>'',
           ''  4. Run: tizen package -t wgt -s '' @ packageId (TIZEN_CONFIG JUndefined) @ '' -- tizen-build'']
        @ rest)\<close>
    by blast
  from packaging_failure_is_a_warning
    [of \<open>TIZEN_CONFIG JUndefined\<close> sample_world webos_staged no_cli webos_staged
        \<open>WEBOS_CONFIG JUndefined\<close>]
    sample_webos_staged l
  have b: \<open>fst (webos_main no_cli (WEBOS_CONFIG JUndefined) sample_world) = 0 \<and>
    staging (snd (webos_main no_cli (WEBOS_CONFIG JUndefined) sample_world)) = staging webos_staged \<and>
    (\<exists>rest. console (snd (webos_main no_cli (WEBOS_CONFIG JUndefined) sample_world))
      = console webos_staged @
        map (Pair Warn)
          [newline @ warning_sign @ '' ares-package not found. To create an IPK package:'',
           ''  1. Install webOS CLI: npm install -g @webos-tools/cli'',
           ''  2. Run: ares-package webos-build --no-minify'']
        @ rest)\<close>
    by blast
  from a b t l show ?thesis unfolding p by blast
qed

subsection \<open>A missing icon\<close>



subsection \<open>An unreadable package.json\<close>

text \<open>
  Claim C9. When \<^verbatim>\<open>package.json\<close> cannot be read or is not JSON, both exporters
  print the error and end with exit status 1 before any step runs: the world is left
  as it was but for that one console line.
\<close>

theorem unreadable_package_json_aborts:
  assumes \<open>package_json w = Unreadable msg \<or> package_json w = Malformed msg\<close>
  shows \<open>export_tizen exec w = (1, say Error (''Error reading package.json: '' @ msg) w) \<and>
         export_webos exec' w = (1, say Error (''Error reading package.json: '' @ msg) w)\<close>
  using assms by (auto simp: export_tizen_def export_webos_def)


theorem unreadable_package_json_aborts_witness:
  \<open>export_tizen no_cli (sample_world\<lparr>package_json := Malformed ''Unexpected end of JSON input''\<rparr>)
     = (1, say Error ''Error reading package.json: Unexpected end of JSON input''
             (sample_world\<lparr>package_json := Malformed ''Unexpected end of JSON input''\<rparr>)) \<and>
   export_webos no_cli (sample_world\<lparr>package_json := Malformed ''Unexpected end of JSON input''\<rparr>)
     = (1, say Error ''Error reading package.json: Unexpected end of JSON input''
             (sample_world\<lparr>package_json := Malformed ''Unexpected end of JSON input''\<rparr>))\<close>
  using unreadable_package_json_aborts
    [of \<open>sample_world\<lparr>package_json := Malformed ''Unexpected end of JSON input''\<rparr>\<close>
        \<open>''Unexpected end of JSON input''\<close> no_cli no_cli]
  by simp

end
